theory Spec2Isabelle
  imports Complex_Main "HOL-Library.Word"
begin

unbundle bit_operations_syntax

section \<open>Core types (core/vector.hpp, storage/io\_stats.hpp)\<close>

text \<open>
  \<open>VectorID\<close> is \<open>uint64_t\<close>. A \<open>float\<close> is carried as its 32-bit pattern: the
  storage layer only copies payloads and never computes with them. \<open>size_t\<close> is 64 bits
  wide; \<open>double\<close> accumulators (latencies, device time) are idealised as reals.
\<close>

type_synonym VectorID = "64 word"
type_synonym float32 = "32 word"
type_synonym VectorData = "float32 list"
type_synonym size_t = "64 word"

record IOStats =
  num_reads :: "64 word"
  num_writes :: "64 word"
  bytes_read :: "64 word"
  bytes_written :: "64 word"
  total_read_latency_us :: real
  total_write_latency_us :: real

definition IOStats_init :: IOStats where
  "IOStats_init = \<lparr>num_reads = 0, num_writes = 0, bytes_read = 0, bytes_written = 0,
     total_read_latency_us = 0, total_write_latency_us = 0\<rparr>"

text \<open>\<open>v.size() * sizeof(float)\<close>, computed in \<open>size_t\<close>.\<close>

definition payload_bytes :: "VectorData \<Rightarrow> size_t" where
  "payload_bytes v = of_nat (length v) * 4"

text \<open>\<open>std::vector::resize(n, v)\<close>: truncate, or pad at the end with copies of \<open>v\<close>.\<close>

definition resize :: "nat \<Rightarrow> 'a \<Rightarrow> 'a list \<Rightarrow> 'a list" where
  "resize n v xs = take n xs @ replicate (n - length xs) v"

section \<open>In-memory backend (storage/memory\_backend.cpp)\<close>

text \<open>
  Every backend operation returns an option: \<open>None\<close> stands for undefined behaviour of
  the C++ (an out-of-range subscript, a signed overflow). A \<open>bool\<close> function with an
  out-parameter returns the flag, the out-parameter's new value and the new state.
\<close>

record MemoryBackend =
  mb_data :: "VectorData list"
  mb_present :: "bool list"
  mb_stats :: IOStats

definition MemoryBackend_new :: MemoryBackend where
  "MemoryBackend_new = \<lparr>mb_data = [], mb_present = [], mb_stats = IOStats_init\<rparr>"

definition mem_read_node ::
  "MemoryBackend \<Rightarrow> VectorID \<Rightarrow> VectorData \<Rightarrow> (bool \<times> VectorData \<times> MemoryBackend) option" where
  "mem_read_node mb node_id out_data =
     (let idx = unat node_id in
      if idx \<ge> length (mb_data mb) \<or> idx \<ge> length (mb_present mb) \<or> \<not> mb_present mb ! idx
      then Some (False, out_data, mb)
      else
        let out = mb_data mb ! idx;
            st = mb_stats mb
        in Some (True, out,
             mb\<lparr>mb_stats := st\<lparr>num_reads := num_reads st + 1,
                                 bytes_read := bytes_read st + payload_bytes out\<rparr>\<rparr>))"

text \<open>
  \<open>idx + 1\<close> is computed in \<open>size_t\<close>: for \<open>idx = 2^64 - 1\<close> it wraps to 0, the vectors
  are resized to length 0 and the following \<open>data_[idx]\<close> is out of range.
\<close>

definition mem_write_node ::
  "MemoryBackend \<Rightarrow> VectorID \<Rightarrow> VectorData \<Rightarrow> (bool \<times> MemoryBackend) option" where
  "mem_write_node mb node_id data =
     (let idx = unat node_id;
          grow = (length (mb_data mb) \<le> idx);
          n = unat (node_id + 1);
          d = (if grow then resize n [] (mb_data mb) else mb_data mb);
          p = (if grow then resize n False (mb_present mb) else mb_present mb);
          st = mb_stats mb
      in if idx \<ge> length d \<or> idx \<ge> length p then None
         else Some (True,
           mb\<lparr>mb_data := d[idx := data], mb_present := p[idx := True],
              mb_stats := st\<lparr>num_writes := num_writes st + 1,
                               bytes_written := bytes_written st + payload_bytes data\<rparr>\<rparr>))"

text \<open>A client of the in-memory backend: any sequence of writes and reads.\<close>

datatype mem_op = MemWrite VectorID VectorData | MemRead VectorID

fun mem_run :: "MemoryBackend \<Rightarrow> mem_op list \<Rightarrow> MemoryBackend option" where
  "mem_run mb [] = Some mb"
| "mem_run mb (MemWrite i v # ops) =
     (case mem_write_node mb i v of None \<Rightarrow> None | Some (ok, mb') \<Rightarrow> mem_run mb' ops)"
| "mem_run mb (MemRead i # ops) =
     (case mem_read_node mb i [] of None \<Rightarrow> None | Some (ok, out, mb') \<Rightarrow> mem_run mb' ops)"

definition mem_read_ok :: "MemoryBackend \<Rightarrow> VectorID \<Rightarrow> bool" where
  "mem_read_ok mb i = (case mem_read_node mb i [] of Some (ok, out, mb') \<Rightarrow> ok | None \<Rightarrow> False)"

definition written :: "mem_op list \<Rightarrow> VectorID \<Rightarrow> bool" where
  "written ops i = (\<exists>v. MemWrite i v \<in> set ops)"

text \<open>The class invariant: both vectors have one length, and the set of present slots.\<close>

definition mem_inv :: "MemoryBackend \<Rightarrow> bool" where
  "mem_inv mb = (length (mb_present mb) = length (mb_data mb))"

definition mem_present :: "MemoryBackend \<Rightarrow> VectorID \<Rightarrow> bool" where
  "mem_present mb i = (unat i < length (mb_present mb) \<and> mb_present mb ! unat i)"

section \<open>File backend (storage/file\_backend.cpp)\<close>

text \<open>
  The file system the backend runs against: the files that can be opened, which paths
  \<open>open(path, out)\<close> can create, and the size beyond which a write fails. A payload is
  laid out as on the (little-endian) target: four bytes per float.
\<close>

type_synonym byte = "8 word"

record FileSystem =
  files :: "string \<rightharpoonup> byte list"
  creatable :: "string \<Rightarrow> bool"
  disk_limit :: nat

text \<open>Little-endian bytes of a word, lowest byte first, and back.\<close>

fun le_bytes :: "nat \<Rightarrow> 'a::len word \<Rightarrow> byte list" where
  "le_bytes 0 w = []"
| "le_bytes (Suc n) w = ucast w # le_bytes n (drop_bit 8 w)"

fun le_word :: "byte list \<Rightarrow> 'a::len word" where
  "le_word [] = 0"
| "le_word (b # bs) = ucast b OR push_bit 8 (le_word bs)"

definition float_bytes :: "float32 \<Rightarrow> byte list" where
  "float_bytes w = le_bytes 4 w"

definition data_bytes :: "VectorData \<Rightarrow> byte list" where
  "data_bytes v = concat (map float_bytes v)"

fun bytes_data :: "byte list \<Rightarrow> VectorData" where
  "bytes_data (b0 # b1 # b2 # b3 # bs) = le_word [b0, b1, b2, b3] # bytes_data bs"
| "bytes_data bs = []"

record FileBackend =
  fb_path :: string
  fb_dim :: size_t
  fb_stats :: IOStats

definition FileBackend_new :: "string \<Rightarrow> size_t \<Rightarrow> FileBackend" where
  "FileBackend_new path dm = \<lparr>fb_path = path, fb_dim = dm, fb_stats = IOStats_init\<rparr>"

text \<open>
  The slot offset \<open>streamoff(node_id) * streamoff(dim * sizeof(float))\<close> is a signed
  64-bit product; outside the range of \<open>int64\<close> it is undefined.
\<close>

definition slot_offset :: "VectorID \<Rightarrow> size_t \<Rightarrow> int option" where
  "slot_offset node_id dm =
     (let off = sint node_id * sint (dm * 4)
      in if - (2 ^ 63) \<le> off \<and> off < 2 ^ 63 then Some off else None)"

text \<open>
  A vector of \<open>2^61\<close> floats or more cannot be allocated: \<open>resize\<close> throws, which is
  outside the model (\<open>None\<close>). A seek to a negative offset fails; a seek beyond the end
  succeeds and the following read fails, after it has copied the bytes that were there.
\<close>

definition file_read_node ::
  "FileBackend \<Rightarrow> FileSystem \<Rightarrow> VectorID \<Rightarrow> VectorData \<Rightarrow> (bool \<times> VectorData \<times> FileBackend) option" where
  "file_read_node fb fs node_id out_data =
     (if fb_dim fb = 0 then Some (False, out_data, fb)
      else case files fs (fb_path fb) of
        None \<Rightarrow> Some (False, out_data, fb)
      | Some content \<Rightarrow>
         (case slot_offset node_id (fb_dim fb) of
            None \<Rightarrow> None
          | Some off \<Rightarrow>
             if off < 0 then Some (False, out_data, fb)
             else if 2 ^ 61 \<le> unat (fb_dim fb) then None
             else
               let out1 = resize (unat (fb_dim fb)) 0 out_data;
                   n = unat (fb_dim fb * 4);
                   got = take n (drop (nat off) content);
                   st = fb_stats fb
               in if length got < n
                  then Some (False, bytes_data (got @ drop (length got) (data_bytes out1)), fb)
                  else Some (True, bytes_data got,
                         fb\<lparr>fb_stats := st\<lparr>num_reads := num_reads st + 1,
                                            bytes_read := bytes_read st + fb_dim fb * 4\<rparr>\<rparr>)))"

text \<open>\<open>seekp\<close> beyond the end followed by a write fills the gap with zero bytes.\<close>

definition write_at :: "nat \<Rightarrow> byte list \<Rightarrow> byte list \<Rightarrow> byte list" where
  "write_at off bs content =
     take off content @ replicate (off - length content) 0 @ bs @ drop (off + length bs) content"

definition file_write_node ::
  "FileBackend \<Rightarrow> FileSystem \<Rightarrow> VectorID \<Rightarrow> VectorData \<Rightarrow> (bool \<times> FileBackend \<times> FileSystem) option" where
  "file_write_node fb fs node_id data =
     (let fb1 = (if fb_dim fb = 0 then fb\<lparr>fb_dim := of_nat (length data)\<rparr> else fb)
      in if of_nat (length data) \<noteq> fb_dim fb1 then Some (False, fb1, fs)
         else
           let opened = (case files fs (fb_path fb1) of
                           Some content \<Rightarrow> Some fs
                         | None \<Rightarrow> if creatable fs (fb_path fb1)
                                    then Some (fs\<lparr>files := (files fs)(fb_path fb1 \<mapsto> [])\<rparr>)
                                    else None)
           in case opened of
                None \<Rightarrow> Some (False, fb1, fs)
              | Some fs1 \<Rightarrow>
                 (case slot_offset node_id (fb_dim fb1) of
                    None \<Rightarrow> None
                  | Some off \<Rightarrow>
                     if off < 0 then Some (False, fb1, fs1)
                     else if 2 ^ 61 \<le> length data then None
                     else
                       let content = the (files fs1 (fb_path fb1));
                           content' = write_at (nat off) (data_bytes data) content;
                           st = fb_stats fb1
                       in if disk_limit fs1 < length content' then Some (False, fb1, fs1)
                          else Some (True,
                                 fb1\<lparr>fb_stats := st\<lparr>num_writes := num_writes st + 1,
                                       bytes_written := bytes_written st + fb_dim fb1 * 4\<rparr>\<rparr>,
                                 fs1\<lparr>files := (files fs1)(fb_path fb1 \<mapsto> content')\<rparr>)))"

section \<open>Cache policies (tiered/cache\_policy.cpp)\<close>

text \<open>
  LRU: \<open>lru_list\<close> has the most recently used key at its head; \<open>lru_map\<close> is the key set
  of \<open>map_\<close>, whose iterators designate the keys' nodes in the list. \<open>on_insert\<close> returns
  the flag, the out-parameter \<open>evicted_id\<close> and the new policy; \<open>back()\<close> of an empty
  list is undefined.
\<close>

record LRUCachePolicy =
  lru_capacity :: size_t
  lru_list :: "VectorID list"
  lru_map :: "VectorID set"

definition LRUCachePolicy_new :: "size_t \<Rightarrow> LRUCachePolicy" where
  "LRUCachePolicy_new capacity = \<lparr>lru_capacity = capacity, lru_list = [], lru_map = {}\<rparr>"

definition lru_record_access :: "LRUCachePolicy \<Rightarrow> VectorID \<Rightarrow> LRUCachePolicy" where
  "lru_record_access p i =
     (if i \<notin> lru_map p then p else p\<lparr>lru_list := i # remove1 i (lru_list p)\<rparr>)"

definition lru_on_insert ::
  "LRUCachePolicy \<Rightarrow> VectorID \<Rightarrow> VectorID \<Rightarrow> (bool \<times> VectorID \<times> LRUCachePolicy) option" where
  "lru_on_insert p i evicted_id =
     (if lru_capacity p = 0 then Some (False, evicted_id, p)
      else if i \<in> lru_map p then Some (False, evicted_id, lru_record_access p i)
      else if card (lru_map p) \<ge> unat (lru_capacity p) then
        (if lru_list p = [] then None
         else
           let victim = last (lru_list p)
           in Some (True, victim,
                p\<lparr>lru_list := i # butlast (lru_list p),
                   lru_map := insert i (lru_map p - {victim})\<rparr>))
      else Some (False, evicted_id,
             p\<lparr>lru_list := i # lru_list p, lru_map := insert i (lru_map p)\<rparr>))"

definition lru_erase :: "LRUCachePolicy \<Rightarrow> VectorID \<Rightarrow> LRUCachePolicy" where
  "lru_erase p i =
     (if i \<notin> lru_map p then p
      else p\<lparr>lru_list := remove1 i (lru_list p), lru_map := lru_map p - {i}\<rparr>)"

definition lru_clear :: "LRUCachePolicy \<Rightarrow> LRUCachePolicy" where
  "lru_clear p = p\<lparr>lru_list := [], lru_map := {}\<rparr>"

text \<open>
  LFU: \<open>freq_map\<close> is the multimap as its sequence of pairs, ordered by frequency, equal
  frequencies in insertion order; \<open>entries\<close> maps a key to its frequency (its iterator
  designates the pair of that frequency and key).
\<close>

record LFUCachePolicy =
  lfu_capacity :: size_t
  freq_map :: "(size_t \<times> VectorID) list"
  entries :: "(VectorID \<times> size_t) list"

definition LFUCachePolicy_new :: "size_t \<Rightarrow> LFUCachePolicy" where
  "LFUCachePolicy_new capacity = \<lparr>lfu_capacity = capacity, freq_map = [], entries = []\<rparr>"

definition mm_emplace :: "size_t \<Rightarrow> VectorID \<Rightarrow> (size_t \<times> VectorID) list \<Rightarrow> (size_t \<times> VectorID) list" where
  "mm_emplace f i xs =
     takeWhile (\<lambda>kv. fst kv \<le> f) xs @ (f, i) # dropWhile (\<lambda>kv. fst kv \<le> f) xs"

definition lfu_record_access :: "LFUCachePolicy \<Rightarrow> VectorID \<Rightarrow> LFUCachePolicy" where
  "lfu_record_access p i =
     (case map_of (entries p) i of
        None \<Rightarrow> p
      | Some old_freq \<Rightarrow>
          let new_freq = old_freq + 1
          in p\<lparr>freq_map := mm_emplace new_freq i (remove1 (old_freq, i) (freq_map p)),
                entries := map (\<lambda>kv. if fst kv = i then (i, new_freq) else kv) (entries p)\<rparr>)"

definition lfu_on_insert ::
  "LFUCachePolicy \<Rightarrow> VectorID \<Rightarrow> VectorID \<Rightarrow> (bool \<times> VectorID \<times> LFUCachePolicy) option" where
  "lfu_on_insert p i evicted_id =
     (if lfu_capacity p = 0 then Some (False, evicted_id, p)
      else if map_of (entries p) i \<noteq> None then Some (False, evicted_id, lfu_record_access p i)
      else
        let (evicted, ev, p1) =
              (if length (entries p) \<ge> unat (lfu_capacity p) \<and> freq_map p \<noteq> []
               then let victim = snd (hd (freq_map p))
                    in (True, victim,
                        p\<lparr>freq_map := tl (freq_map p),
                           entries := filter (\<lambda>kv. fst kv \<noteq> victim) (entries p)\<rparr>)
               else (False, evicted_id, p))
        in Some (evicted, ev,
             p1\<lparr>freq_map := mm_emplace 1 i (freq_map p1), entries := entries p1 @ [(i, 1)]\<rparr>))"

definition lfu_erase :: "LFUCachePolicy \<Rightarrow> VectorID \<Rightarrow> LFUCachePolicy" where
  "lfu_erase p i =
     (case map_of (entries p) i of
        None \<Rightarrow> p
      | Some f \<Rightarrow> p\<lparr>freq_map := remove1 (f, i) (freq_map p),
                     entries := filter (\<lambda>kv. fst kv \<noteq> i) (entries p)\<rparr>)"

definition lfu_clear :: "LFUCachePolicy \<Rightarrow> LFUCachePolicy" where
  "lfu_clear p = p\<lparr>freq_map := [], entries := []\<rparr>"

text \<open>The abstract \<open>CachePolicy\<close> with its two implementations.\<close>

datatype CachePolicy = LRU LRUCachePolicy | LFU LFUCachePolicy

fun record_access :: "CachePolicy \<Rightarrow> VectorID \<Rightarrow> CachePolicy" where
  "record_access (LRU p) i = LRU (lru_record_access p i)"
| "record_access (LFU p) i = LFU (lfu_record_access p i)"

fun on_insert :: "CachePolicy \<Rightarrow> VectorID \<Rightarrow> VectorID \<Rightarrow> (bool \<times> VectorID \<times> CachePolicy) option" where
  "on_insert (LRU p) i ev = map_option (\<lambda>(b, e, q). (b, e, LRU q)) (lru_on_insert p i ev)"
| "on_insert (LFU p) i ev = map_option (\<lambda>(b, e, q). (b, e, LFU q)) (lfu_on_insert p i ev)"

section \<open>SSD device model (simulator/ssd\_simulator.hpp)\<close>

record SsdDeviceConfig =
  num_channels :: size_t
  queue_depth_per_channel :: size_t
  base_read_latency_us :: real
  internal_read_bandwidth_GBps :: real

definition SsdDeviceConfig_default :: SsdDeviceConfig where
  "SsdDeviceConfig_default = \<lparr>num_channels = 0, queue_depth_per_channel = 0,
     base_read_latency_us = 0, internal_read_bandwidth_GBps = 0\<rparr>"

record SsdSimulator =
  sim_config :: SsdDeviceConfig
  sim_io_stats :: IOStats
  sim_total_time_us :: real

definition SsdSimulator_new :: "SsdDeviceConfig \<Rightarrow> SsdSimulator" where
  "SsdSimulator_new config = \<lparr>sim_config = config, sim_io_stats = IOStats_init,
     sim_total_time_us = 0\<rparr>"

definition bw_bytes_per_us :: "SsdDeviceConfig \<Rightarrow> real" where
  "bw_bytes_per_us config =
     (if internal_read_bandwidth_GBps config > 0
      then internal_read_bandwidth_GBps config * 1000000000 / 1000000 else 0)"

definition parallel :: "SsdDeviceConfig \<Rightarrow> size_t" where
  "parallel config =
     (let par = num_channels config * queue_depth_per_channel config
      in if par = 0 then 1 else par)"

definition sim_record_read :: "SsdSimulator \<Rightarrow> size_t \<Rightarrow> SsdSimulator" where
  "sim_record_read sim bytes =
     (let config = sim_config sim;
          st = sim_io_stats sim;
          bw = bw_bytes_per_us config;
          t_us = base_read_latency_us config + (if bw > 0 then real (unat bytes) / bw else 0)
      in sim\<lparr>sim_io_stats := st\<lparr>num_reads := num_reads st + 1,
                                  bytes_read := bytes_read st + bytes\<rparr>,
               sim_total_time_us := sim_total_time_us sim + t_us / real (unat (parallel config))\<rparr>)"

definition sim_reset_stats :: "SsdSimulator \<Rightarrow> SsdSimulator" where
  "sim_reset_stats sim = sim\<lparr>sim_io_stats := IOStats_init, sim_total_time_us := 0\<rparr>"

section \<open>Tiered backend (storage/tiered\_backend.cpp)\<close>

text \<open>
  The backing store is any \<open>StorageBackend\<close>: its state has type \<open>'b\<close> and its virtual
  \<open>read_node\<close> and \<open>write_node\<close> are passed as a record of functions. The file backend's
  state is the pair of the object and the file system it works on. \<open>cache_\<close> is the
  sequence of its entries, with distinct keys; the order of an \<open>unordered_map\<close> is not
  observed by the code. The readings of \<open>Timer\<close> are inputs.
\<close>

record 'b backend_ops =
  op_read :: "'b \<Rightarrow> VectorID \<Rightarrow> VectorData \<Rightarrow> (bool \<times> VectorData \<times> 'b) option"
  op_write :: "'b \<Rightarrow> VectorID \<Rightarrow> VectorData \<Rightarrow> (bool \<times> 'b) option"

definition memory_ops :: "MemoryBackend backend_ops" where
  "memory_ops = \<lparr>op_read = mem_read_node, op_write = mem_write_node\<rparr>"

definition file_ops :: "(FileBackend \<times> FileSystem) backend_ops" where
  "file_ops =
     \<lparr>op_read = (\<lambda>(fb, fs) i out.
          map_option (\<lambda>(ok, out', fb'). (ok, out', (fb', fs))) (file_read_node fb fs i out)),
      op_write = (\<lambda>(fb, fs) i v.
          map_option (\<lambda>(ok, fb', fs'). (ok, (fb', fs'))) (file_write_node fb fs i v))\<rparr>"

record 'b TieredBackend =
  backing :: "'b option"
  cache_capacity :: size_t
  cache :: "(VectorID \<times> VectorData) list"
  policy :: "CachePolicy option"
  stats :: IOStats
  cache_hits :: "64 word"
  cache_misses :: "64 word"
  ssd_sim :: "SsdSimulator option"

definition TieredBackend_new :: "'b option \<Rightarrow> size_t \<Rightarrow> string \<Rightarrow> 'b TieredBackend" where
  "TieredBackend_new b cache_capacity_vectors cache_policy =
     \<lparr>backing = b, cache_capacity = cache_capacity_vectors, cache = [],
      policy = (if cache_capacity_vectors > 0
                then (if cache_policy = ''lfu''
                      then Some (LFU (LFUCachePolicy_new cache_capacity_vectors))
                      else Some (LRU (LRUCachePolicy_new cache_capacity_vectors)))
                else None),
      stats = IOStats_init, cache_hits = 0, cache_misses = 0, ssd_sim = None\<rparr>"

definition enable_device_model :: "'b TieredBackend \<Rightarrow> SsdDeviceConfig \<Rightarrow> 'b TieredBackend" where
  "enable_device_model t config = t\<lparr>ssd_sim := Some (SsdSimulator_new config)\<rparr>"

definition device_time_us :: "'b TieredBackend \<Rightarrow> real" where
  "device_time_us t = (case ssd_sim t of None \<Rightarrow> 0 | Some sim \<Rightarrow> sim_total_time_us sim)"

definition record_logical_read_bytes :: "'b TieredBackend \<Rightarrow> size_t \<Rightarrow> 'b TieredBackend" where
  "record_logical_read_bytes t bytes =
     (let st = stats t
      in t\<lparr>stats := st\<lparr>num_reads := num_reads st + 1, bytes_read := bytes_read st + bytes\<rparr>,
            ssd_sim := map_option (\<lambda>sim. sim_record_read sim bytes) (ssd_sim t)\<rparr>)"

definition cache_size :: "'b TieredBackend \<Rightarrow> nat" where
  "cache_size t = length (cache t)"

definition resident :: "'b TieredBackend \<Rightarrow> VectorID set" where
  "resident t = fst ` set (cache t)"

definition insert_into_cache ::
  "'b TieredBackend \<Rightarrow> VectorID \<Rightarrow> VectorData \<Rightarrow> 'b TieredBackend option" where
  "insert_into_cache t i data =
     (case policy t of
        None \<Rightarrow> Some t
      | Some pol \<Rightarrow>
          if cache_capacity t = 0 then Some t
          else if map_of (cache t) i \<noteq> None
          then Some (t\<lparr>cache := map (\<lambda>kv. if fst kv = i then (i, data) else kv) (cache t),
                       policy := Some (record_access pol i)\<rparr>)
          else (case on_insert pol i 0 of
                  None \<Rightarrow> None
                | Some (evicted, evicted_id, pol') \<Rightarrow>
                    let c = (if evicted then filter (\<lambda>kv. fst kv \<noteq> evicted_id) (cache t)
                             else cache t)
                    in Some (t\<lparr>cache := c @ [(i, data)], policy := Some pol'\<rparr>)))"

definition tiered_read_node ::
  "'b backend_ops \<Rightarrow> real \<Rightarrow> 'b TieredBackend \<Rightarrow> VectorID \<Rightarrow> VectorData \<Rightarrow>
     (bool \<times> VectorData \<times> 'b TieredBackend) option" where
  "tiered_read_node ops us t node_id out_data =
     (case map_of (cache t) node_id of
        Some d \<Rightarrow>
          Some (True, d, t\<lparr>policy := map_option (\<lambda>pol. record_access pol node_id) (policy t),
                            cache_hits := cache_hits t + 1\<rparr>)
      | None \<Rightarrow>
         (case backing t of
            None \<Rightarrow> Some (False, out_data, t)
          | Some b \<Rightarrow>
             (case op_read ops b node_id out_data of
                None \<Rightarrow> None
              | Some (ok, out1, b1) \<Rightarrow>
                  if \<not> ok then Some (False, out1, t\<lparr>backing := Some b1\<rparr>)
                  else
                    let bytes = payload_bytes out1;
                        st = stats t;
                        t1 = t\<lparr>backing := Some b1,
                               stats := st\<lparr>num_reads := num_reads st + 1,
                                           bytes_read := bytes_read st + bytes,
                                           total_read_latency_us := total_read_latency_us st + us\<rparr>,
                               ssd_sim := map_option (\<lambda>sim. sim_record_read sim bytes) (ssd_sim t),
                               cache_misses := cache_misses t + 1\<rparr>
                    in map_option (\<lambda>t2. (True, out1, t2)) (insert_into_cache t1 node_id out1))))"

definition tiered_write_node ::
  "'b backend_ops \<Rightarrow> real \<Rightarrow> 'b TieredBackend \<Rightarrow> VectorID \<Rightarrow> VectorData \<Rightarrow>
     (bool \<times> 'b TieredBackend) option" where
  "tiered_write_node ops us t node_id data =
     (case backing t of
        None \<Rightarrow> Some (False, t)
      | Some b \<Rightarrow>
         (case op_write ops b node_id data of
            None \<Rightarrow> None
          | Some (ok, b1) \<Rightarrow>
              if \<not> ok then Some (False, t\<lparr>backing := Some b1\<rparr>)
              else
                let st = stats t;
                    t1 = t\<lparr>backing := Some b1,
                           stats := st\<lparr>num_writes := num_writes st + 1,
                                       bytes_written := bytes_written st + payload_bytes data,
                                       total_write_latency_us := total_write_latency_us st + us\<rparr>\<rparr>
                in map_option (\<lambda>t2. (True, t2)) (insert_into_cache t1 node_id data)))"

text \<open>A sequence of reads through the tiered backend, each with its timer reading.\<close>

fun tiered_reads ::
  "'b backend_ops \<Rightarrow> 'b TieredBackend \<Rightarrow> (VectorID \<times> real) list \<Rightarrow> (bool list \<times> 'b TieredBackend) option" where
  "tiered_reads ops t [] = Some ([], t)"
| "tiered_reads ops t ((i, us) # rest) =
     (case tiered_read_node ops us t i [] of
        None \<Rightarrow> None
      | Some (ok, out, t1) \<Rightarrow>
          map_option (\<lambda>(oks, t2). (ok # oks, t2)) (tiered_reads ops t1 rest))"

text \<open>
  Scenario A (tests/unit/test\_cache.cpp): a backing store of 4 vectors of dimension 4,
  vector \<open>i\<close> holding the floats \<open>4i + d\<close>, behind a tiered backend of capacity 2 with
  the default LRU policy. \<open>small_float\<close> lists the IEEE-754 single patterns of 0..15.
\<close>

definition small_float :: "nat \<Rightarrow> float32" where
  "small_float n =
     [0x00000000, 0x3F800000, 0x40000000, 0x40400000, 0x40800000, 0x40A00000, 0x40C00000,
      0x40E00000, 0x41000000, 0x41100000, 0x41200000, 0x41300000, 0x41400000, 0x41500000,
      0x41600000, 0x41700000] ! n"

definition scenario_vector :: "nat \<Rightarrow> VectorData" where
  "scenario_vector i = map (\<lambda>d. small_float (4 * i + d)) [0, 1, 2, 3]"

definition scenario_backing :: "MemoryBackend option" where
  "scenario_backing =
     mem_run MemoryBackend_new
       [MemWrite 0 (scenario_vector 0), MemWrite 1 (scenario_vector 1),
        MemWrite 2 (scenario_vector 2), MemWrite 3 (scenario_vector 3)]"

definition scenario_tier :: "MemoryBackend TieredBackend" where
  "scenario_tier = TieredBackend_new scenario_backing 2 ''lru''"

text \<open>
  The device-time formula in the spec's words, for comparison with \<open>sim_record_read\<close>:
  \<open>(base_read_latency_us + B / bandwidth_bytes_per_us) / max(1, num_channels * queue_depth_per_channel)\<close>,
  with the bandwidth in bytes per microsecond (GB/s times 1000). The quotient by a zero
  bandwidth has no value.
\<close>

definition spec_read_time :: "SsdDeviceConfig \<Rightarrow> size_t \<Rightarrow> real option" where
  "spec_read_time config B =
     (let bandwidth_bytes_per_us = internal_read_bandwidth_GBps config * 1000
      in if bandwidth_bytes_per_us = 0 then None
         else Some ((base_read_latency_us config + real (unat B) / bandwidth_bytes_per_us)
                / real (max 1 (unat (num_channels config) * unat (queue_depth_per_channel config)))))"

section \<open>Distance kernel (core/vector.hpp)\<close>

text \<open>
  Single-precision arithmetic is a parameter: the record \<open>platform\<close> holds the target's
  float operations on bit patterns, the compile-time switches \<open>__AVX2__\<close> and \<open>__FMA__\<close>,
  and the two library algorithms whose order among equal keys the C++ standard leaves open
  (\<open>std::nth_element\<close> and \<open>std::sort\<close>, both with the comparator on the first component
  that every call site uses). What is proved holds for every platform.
\<close>

record platform =
  f_add :: "float32 \<Rightarrow> float32 \<Rightarrow> float32"
  f_sub :: "float32 \<Rightarrow> float32 \<Rightarrow> float32"
  f_mul :: "float32 \<Rightarrow> float32 \<Rightarrow> float32"
  f_div :: "float32 \<Rightarrow> float32 \<Rightarrow> float32"
  f_fma :: "float32 \<Rightarrow> float32 \<Rightarrow> float32 \<Rightarrow> float32"
  f_neg :: "float32 \<Rightarrow> float32"
  f_sqrt :: "float32 \<Rightarrow> float32"
  f_less :: "float32 \<Rightarrow> float32 \<Rightarrow> bool"
  f_of_size :: "size_t \<Rightarrow> float32"
  avx2 :: bool
  fma :: bool
  nth_element :: "nat \<Rightarrow> (float32 \<times> 64 word) list \<Rightarrow> (float32 \<times> 64 word) list"
  sort_first :: "(float32 \<times> 64 word) list \<Rightarrow> (float32 \<times> 64 word) list"

definition f_zero :: float32 where "f_zero = 0x00000000"
definition f_one :: float32 where "f_one = 0x3F800000"
definition FLT_MAX :: float32 where "FLT_MAX = 0x7F7FFFFF"
definition f_eps :: float32 where "f_eps = 0x322BCC77"

datatype DistanceMetric = L2 | InnerProduct | Cosine

text \<open>The scalar loop from index \<open>lo\<close> up to \<open>dm\<close>, continuing from \<open>dst\<close>.\<close>

definition l2_tail :: "platform \<Rightarrow> VectorData \<Rightarrow> VectorData \<Rightarrow> nat \<Rightarrow> nat \<Rightarrow> float32 \<Rightarrow> float32" where
  "l2_tail P a b lo dm dst =
     foldl (\<lambda>acc i. let diff = f_sub P (a ! i) (b ! i) in f_add P acc (f_mul P diff diff))
       dst [lo..<dm]"

text \<open>The AVX2 loop: eight accumulators, one block of eight floats per step.\<close>

definition l2_lanes :: "platform \<Rightarrow> VectorData \<Rightarrow> VectorData \<Rightarrow> nat \<Rightarrow> float32 list" where
  "l2_lanes P a b dm =
     foldl (\<lambda>acc blk.
        map (\<lambda>j. let diff = f_sub P (a ! (8 * blk + j)) (b ! (8 * blk + j))
                  in if fma P then f_fma P diff diff (acc ! j)
                     else f_add P (acc ! j) (f_mul P diff diff))
          [0..<8])
       (replicate 8 f_zero) [0..<dm div 8]"

text \<open>Reading either buffer beyond its end is undefined.\<close>

definition l2_distance_squared :: "platform \<Rightarrow> VectorData \<Rightarrow> VectorData \<Rightarrow> nat \<Rightarrow> float32 option" where
  "l2_distance_squared P a b dm =
     (if length a < dm \<or> length b < dm then None
      else if avx2 P then
        let buf = l2_lanes P a b dm;
            dst = foldl (f_add P) (buf ! 0) (tl buf)
        in Some (l2_tail P a b (8 * (dm div 8)) dm dst)
      else Some (l2_tail P a b 0 dm f_zero))"

definition inner_product :: "platform \<Rightarrow> VectorData \<Rightarrow> VectorData \<Rightarrow> nat \<Rightarrow> float32 option" where
  "inner_product P a b dm =
     (if length a < dm \<or> length b < dm then None
      else Some (foldl (\<lambda>result i. f_add P result (f_mul P (a ! i) (b ! i))) f_zero [0..<dm]))"

definition cosine_similarity :: "platform \<Rightarrow> VectorData \<Rightarrow> VectorData \<Rightarrow> nat \<Rightarrow> float32 option" where
  "cosine_similarity P a b dm =
     (case (inner_product P a b dm, inner_product P a a dm, inner_product P b b dm) of
        (Some dot, Some aa, Some bb) \<Rightarrow>
          Some (f_div P dot (f_add P (f_mul P (f_sqrt P aa) (f_sqrt P bb)) f_eps))
      | _ \<Rightarrow> None)"

fun compute_distance :: "platform \<Rightarrow> VectorData \<Rightarrow> VectorData \<Rightarrow> nat \<Rightarrow> DistanceMetric \<Rightarrow> float32 option" where
  "compute_distance P a b dm L2 = l2_distance_squared P a b dm"
| "compute_distance P a b dm InnerProduct = map_option (f_neg P) (inner_product P a b dm)"
| "compute_distance P a b dm Cosine = map_option (f_neg P) (cosine_similarity P a b dm)"

section \<open>ANN-in-SSD block model (simulator/ann\_in\_ssd\_model.cpp)\<close>

text \<open>
  The configuration fields that \<open>build_block_graph_if_needed\<close> and \<open>search_one\<close> read.
  The dataset is the vector of its payloads, behind a pointer that may be null.
\<close>

record AnnInSsdConfig =
  dimension :: size_t
  num_vectors :: size_t
  placement_mode :: string
  vectors_per_block :: size_t
  portal_degree :: size_t
  code_type :: string
  hardware_level :: string
  cfg_k :: size_t
  max_steps :: size_t
  entry_block_strategy :: string

record Query =
  q_id :: VectorID
  q_values :: VectorData
  true_neighbors :: "VectorID list"

record QueryResult =
  query_id :: VectorID
  found_neighbors :: "VectorID list"
  found_scores :: "float32 list"
  blocks_visited :: size_t
  portal_steps :: size_t
  internal_reads :: size_t
  distances_computed :: size_t
  estimated_latency_us :: real

record AnnInSsdModel =
  config :: AnnInSsdConfig
  dataset :: "VectorData list option"
  block_centroids :: "VectorData list"
  block_neighbors :: "size_t list list"
  graph_dim :: size_t
  graph_vectors_per_block :: size_t
  block_assignment :: "VectorID list list"

definition AnnInSsdModel_new :: "AnnInSsdConfig \<Rightarrow> VectorData list \<Rightarrow> AnnInSsdModel" where
  "AnnInSsdModel_new cfg ds =
     \<lparr>config = cfg, dataset = Some ds, block_centroids = [], block_neighbors = [],
      graph_dim = 0, graph_vectors_per_block = 0, block_assignment = []\<rparr>"

text \<open>\<open>n\<close>, the block size and the number of blocks, as both functions compute them.\<close>

definition effective_n :: "AnnInSsdConfig \<Rightarrow> VectorData list \<Rightarrow> size_t" where
  "effective_n cfg ds =
     (if num_vectors cfg > 0 \<and> num_vectors cfg < of_nat (length ds) then num_vectors cfg
      else of_nat (length ds))"

definition effective_K :: "AnnInSsdConfig \<Rightarrow> size_t" where
  "effective_K cfg = (if vectors_per_block cfg = 0 then 128 else vectors_per_block cfg)"

definition num_blocks_of :: "size_t \<Rightarrow> size_t \<Rightarrow> size_t" where
  "num_blocks_of n K = (n + K - 1) div K"

text \<open>\<open>Dataset::get_vector_data\<close>: an unchecked subscript.\<close>

definition get_vector_data :: "VectorData list \<Rightarrow> nat \<Rightarrow> VectorData option" where
  "get_vector_data ds idx = (if idx < length ds then Some (ds ! idx) else None)"

text \<open>
  The contiguous assignment of block \<open>b\<close>; \<open>ids.reserve(end - start)\<close> throws when the
  difference wraps around.
\<close>

definition hash_home_block :: "size_t \<Rightarrow> size_t \<Rightarrow> size_t \<Rightarrow> VectorID list option" where
  "hash_home_block n K b =
     (let start = b * K;
          stop = min (start + K) n
      in if stop < start then None
         else Some (map of_nat [unat start..<unat stop]))"

definition hash_home_assignment :: "size_t \<Rightarrow> size_t \<Rightarrow> size_t \<Rightarrow> VectorID list list option" where
  "hash_home_assignment n K num_blocks =
     those (map (\<lambda>b. hash_home_block n K (of_nat b)) [0..<unat num_blocks])"

text \<open>
  The locality-aware pass: centroids by strided sampling, then each vector of the right
  size appended to the block of its nearest centroid. The blocks are not cleared first.
\<close>

definition nearest_centroid :: "platform \<Rightarrow> VectorData list \<Rightarrow> VectorData \<Rightarrow> nat \<Rightarrow> nat option" where
  "nearest_centroid P centroids vec dm =
     map_option snd
       (foldl (\<lambda>st b. case st of
                 None \<Rightarrow> None
               | Some (best_dist, best_b) \<Rightarrow>
                  (case l2_distance_squared P vec (centroids ! b) dm of
                     None \<Rightarrow> None
                   | Some d \<Rightarrow> if f_less P d best_dist then Some (d, b)
                               else Some (best_dist, best_b)))
          (Some (FLT_MAX, 0)) [0..<length centroids])"

definition locality_assignment ::
  "platform \<Rightarrow> VectorData list \<Rightarrow> size_t \<Rightarrow> size_t \<Rightarrow> size_t \<Rightarrow> VectorID list list \<Rightarrow> VectorID list list option" where
  "locality_assignment P ds n dm num_blocks assignment =
     (case those (map (\<lambda>b. get_vector_data ds (unat ((of_nat b * (n div num_blocks)) mod n)))
                   [0..<unat num_blocks]) of
        None \<Rightarrow> None
      | Some centroids \<Rightarrow>
          foldl (\<lambda>st i. case st of
                   None \<Rightarrow> None
                 | Some asg \<Rightarrow>
                    (case get_vector_data ds i of
                       None \<Rightarrow> None
                     | Some vec \<Rightarrow>
                        if length vec \<noteq> unat dm then Some asg
                        else (case nearest_centroid P centroids vec (unat dm) of
                                None \<Rightarrow> None
                              | Some best_b \<Rightarrow>
                                  if best_b < length asg
                                  then Some (asg[best_b := asg ! best_b @ [of_nat i]])
                                  else None)))
            (Some assignment) [0..<unat n])"

text \<open>The centroid of a block: the mean of its vectors of the right size, zero if none.\<close>

definition block_centroid :: "platform \<Rightarrow> VectorData list \<Rightarrow> nat \<Rightarrow> VectorID list \<Rightarrow> VectorData option" where
  "block_centroid P ds dm ids =
     (case foldl (\<lambda>st vid. case st of
                    None \<Rightarrow> None
                  | Some (centroid, count) \<Rightarrow>
                     (case get_vector_data ds (unat vid) of
                        None \<Rightarrow> None
                      | Some base_vec \<Rightarrow>
                          if length base_vec \<noteq> dm then Some (centroid, count)
                          else Some (map (\<lambda>d. f_add P (centroid ! d) (base_vec ! d)) [0..<dm],
                                     count + 1)))
            (Some (replicate dm f_zero, 0 :: size_t)) ids of
        None \<Rightarrow> None
      | Some (centroid, count) \<Rightarrow>
          if count > 0
          then let inv = f_div P f_one (f_of_size P count)
               in Some (map (\<lambda>c. f_mul P c inv) centroid)
          else Some centroid)"

text \<open>
  The portal list of block \<open>b\<close>: the \<open>portal_degree\<close> nearest other centroids in
  ascending order, then the two ring neighbours unless already listed.
\<close>

definition push_unless_found :: "'a \<Rightarrow> 'a list \<Rightarrow> 'a list" where
  "push_unless_found x xs = (if x \<in> set xs then xs else xs @ [x])"

definition block_portals ::
  "platform \<Rightarrow> VectorData list \<Rightarrow> nat \<Rightarrow> size_t \<Rightarrow> size_t \<Rightarrow> nat \<Rightarrow> size_t list option" where
  "block_portals P centroids dm portal_deg num_blocks b =
     (if length (centroids ! b) \<noteq> dm then Some []
      else
        case those (map (\<lambda>j. map_option (\<lambda>d. (d, of_nat j :: size_t))
                               (l2_distance_squared P (centroids ! b) (centroids ! j) dm))
                      (filter (\<lambda>j. j \<noteq> b \<and> length (centroids ! j) = dm) [0..<unat num_blocks])) of
          None \<Rightarrow> None
        | Some cand \<Rightarrow>
            let keep = min (unat portal_deg) (length cand);
                nb_list = (if keep > 0
                           then map snd (sort_first P (take keep (nth_element P keep cand)))
                           else []);
                fwd = (of_nat b + 1) mod num_blocks;
                back = (of_nat b + num_blocks - 1) mod num_blocks
            in if num_blocks > 1
               then Some (push_unless_found back (push_unless_found fwd nb_list))
               else Some nb_list)"

text \<open>The dimension of the graph: the configured one, or that of vector 0.\<close>

definition graph_dimension :: "AnnInSsdConfig \<Rightarrow> VectorData list \<Rightarrow> size_t" where
  "graph_dimension cfg ds =
     (if dimension cfg = 0 then of_nat (length (ds ! 0)) else dimension cfg)"

definition build_block_graph_if_needed :: "platform \<Rightarrow> AnnInSsdModel \<Rightarrow> AnnInSsdModel option" where
  "build_block_graph_if_needed P m =
     (case dataset m of
        None \<Rightarrow> Some m
      | Some ds \<Rightarrow>
          let n = effective_n (config m) ds
          in if n = 0 then Some m
             else
               let dm = graph_dimension (config m) ds
               in if dm = 0 then Some m
                  else
                    let K = effective_K (config m);
                        num_blocks = num_blocks_of n K
                    in if block_neighbors m \<noteq> [] \<and> graph_dim m = dm \<and>
                          graph_vectors_per_block m = K \<and>
                          length (block_centroids m) = unat num_blocks \<and>
                          length (block_neighbors m) = unat num_blocks \<and>
                          length (block_assignment m) = unat num_blocks
                       then Some m
                       else
                         case (if placement_mode (config m) \<noteq> ''locality_aware''
                               then hash_home_assignment n K num_blocks
                               else locality_assignment P ds n dm num_blocks
                                      (resize (unat num_blocks) [] (block_assignment m))) of
                           None \<Rightarrow> None
                         | Some assignment \<Rightarrow>
                            (case those (map (block_centroid P ds (unat dm)) assignment) of
                               None \<Rightarrow> None
                             | Some centroids \<Rightarrow>
                                (case those (map (block_portals P centroids (unat dm)
                                               (if portal_degree (config m) = 0 then 1
                                                else portal_degree (config m)) num_blocks)
                                             [0..<unat num_blocks]) of
                                   None \<Rightarrow> None
                                 | Some neighbors \<Rightarrow>
                                     Some (m\<lparr>graph_dim := dm, graph_vectors_per_block := K,
                                             block_assignment := assignment,
                                             block_centroids := centroids,
                                             block_neighbors := neighbors\<rparr>))))"

text \<open>
  \<open>search_one\<close>. The frontier loop keeps the visited flags, the queue, its head, the
  order in which blocks were popped and the portal steps; it runs while the queue has
  an unpopped block and fewer than \<open>max_blocks_to_visit\<close> blocks were popped.
\<close>

record frontier =
  fr_visited :: "bool list"
  fr_queue :: "size_t list"
  fr_head :: nat
  fr_order :: "size_t list"
  fr_steps :: size_t

definition mark_block :: "frontier \<Rightarrow> size_t \<Rightarrow> frontier option" where
  "mark_block fr b =
     (if unat b < length (fr_visited fr)
      then Some (fr\<lparr>fr_visited := (fr_visited fr)[unat b := True], fr_queue := fr_queue fr @ [b]\<rparr>)
      else None)"

definition expand_block :: "size_t \<Rightarrow> frontier \<Rightarrow> size_t \<Rightarrow> frontier" where
  "expand_block num_blocks fr nb =
     (if nb \<ge> num_blocks then fr
      else if unat nb < length (fr_visited fr) \<and> \<not> fr_visited fr ! unat nb
      then fr\<lparr>fr_visited := (fr_visited fr)[unat nb := True], fr_queue := fr_queue fr @ [nb],
              fr_steps := fr_steps fr + 1\<rparr>
      else fr)"

function frontier_loop :: "size_t list list \<Rightarrow> size_t \<Rightarrow> nat \<Rightarrow> frontier \<Rightarrow> frontier" where
  "frontier_loop neighbors num_blocks max_blocks_to_visit fr =
     (if fr_head fr < length (fr_queue fr) \<and> length (fr_order fr) < max_blocks_to_visit
      then
        let b = fr_queue fr ! fr_head fr;
            fr1 = fr\<lparr>fr_head := fr_head fr + 1, fr_order := fr_order fr @ [b]\<rparr>
        in if unat b \<ge> length neighbors
           then frontier_loop neighbors num_blocks max_blocks_to_visit fr1
           else frontier_loop neighbors num_blocks max_blocks_to_visit
                  (foldl (expand_block num_blocks) fr1 (neighbors ! unat b))
      else fr)"
  by pat_completeness auto

lemma foldl_expand_order: "fr_order (foldl (expand_block num_blocks) fr nbs) = fr_order fr"
  by (induction nbs arbitrary: fr) (simp_all add: expand_block_def)

termination frontier_loop
  by (relation "measure (\<lambda>(neighbors, num_blocks, max_blocks_to_visit, fr).
        max_blocks_to_visit - length (fr_order fr))")
     (auto simp: foldl_expand_order)

text \<open>The scan of the visited blocks: every vector of every block gets its distance.\<close>

definition scan_block ::
  "platform \<Rightarrow> VectorData list \<Rightarrow> VectorData \<Rightarrow> nat \<Rightarrow> VectorID list \<Rightarrow> (float32 \<times> VectorID) list option" where
  "scan_block P ds query dm ids =
     those (map (\<lambda>vid. case get_vector_data ds (unat vid) of
                    None \<Rightarrow> None
                  | Some base_vec \<Rightarrow>
                      map_option (\<lambda>d. (d, vid)) (l2_distance_squared P query base_vec dm))
              ids)"

record scan_state =
  sc_dist_id :: "(float32 \<times> VectorID) list"
  sc_distances_computed :: size_t
  sc_internal_reads :: size_t

definition scan_step ::
  "platform \<Rightarrow> VectorData list \<Rightarrow> VectorID list list \<Rightarrow> VectorData \<Rightarrow> nat \<Rightarrow> bool \<Rightarrow>
     scan_state option \<Rightarrow> size_t \<Rightarrow> scan_state option" where
  "scan_step P ds assignment query dm use_micro_index st b =
     (case st of
        None \<Rightarrow> None
      | Some sc \<Rightarrow>
          if unat b \<ge> length assignment then None
          else
            let ids = assignment ! unat b;
                vectors_to_check = (if use_micro_index then min (of_nat (length ids)) 16
                                    else of_nat (length ids))
            in case scan_block P ds query dm ids of
                 None \<Rightarrow> None
               | Some ds_b \<Rightarrow>
                   Some (sc\<lparr>sc_dist_id := sc_dist_id sc @ ds_b,
                            sc_distances_computed := sc_distances_computed sc + vectors_to_check,
                            sc_internal_reads := sc_internal_reads sc + 1\<rparr>))"

definition scan_blocks ::
  "platform \<Rightarrow> VectorData list \<Rightarrow> VectorID list list \<Rightarrow> VectorData \<Rightarrow> nat \<Rightarrow> bool \<Rightarrow>
     size_t list \<Rightarrow> scan_state option" where
  "scan_blocks P ds assignment query dm use_micro_index block_order =
     foldl (scan_step P ds assignment query dm use_micro_index)
       (Some \<lparr>sc_dist_id = [], sc_distances_computed = 0, sc_internal_reads = 0\<rparr>) block_order"

text \<open>The entry blocks: the nearest centroids, or block 0.\<close>

definition entry_frontier :: "platform \<Rightarrow> AnnInSsdModel \<Rightarrow> Query \<Rightarrow> nat \<Rightarrow> size_t \<Rightarrow> frontier option" where
  "entry_frontier P m query dm num_blocks =
     (let fr0 = \<lparr>fr_visited = replicate (unat num_blocks) False, fr_queue = [], fr_head = 0,
                  fr_order = [], fr_steps = 0\<rparr>;
          num_entry_candidates = (if hardware_level (config m) = ''L2'' then 4
                                  else if hardware_level (config m) = ''L3'' then 8 else 1 :: nat)
      in if block_centroids m \<noteq> [] \<and> q_values query \<noteq> [] \<and>
            entry_block_strategy (config m) = ''centroid_knn''
         then
           case those (map (\<lambda>b. map_option (\<lambda>d. (d, of_nat b :: size_t))
                                  (l2_distance_squared P (q_values query) (block_centroids m ! b) dm))
                         (filter (\<lambda>b. length (block_centroids m ! b) = dm)
                            [0..<length (block_centroids m)])) of
             None \<Rightarrow> None
           | Some candidates \<Rightarrow>
               let keep = min num_entry_candidates (length candidates)
               in if keep > 0
                  then foldl (\<lambda>st c. case st of
                                 None \<Rightarrow> None
                               | Some fr \<Rightarrow>
                                   if unat (snd c) \<ge> length (fr_visited fr) then None
                                   else if fr_visited fr ! unat (snd c) then Some fr
                                   else mark_block fr (snd c))
                         (Some fr0) (take keep (nth_element P keep candidates))
                  else mark_block fr0 0
         else mark_block fr0 0)"

text \<open>
  \<open>search_one\<close> in two parts. \<open>navigate\<close> is the function up to the end of the frontier
  loop: it returns early (\<open>Early\<close>: the result stays empty), or it hands over the model
  after the build, the dataset, \<open>dim\<close>, \<open>k\<close> and the final frontier.
\<close>

datatype navigation = Early | Visited AnnInSsdModel "VectorData list" size_t size_t frontier

definition navigate :: "platform \<Rightarrow> AnnInSsdModel \<Rightarrow> Query \<Rightarrow> navigation option" where
  "navigate P m query =
     (case dataset m of
        None \<Rightarrow> Some Early
      | Some ds \<Rightarrow>
          let n = effective_n (config m) ds
          in if n = 0 then Some Early
             else
               let dm = (if dimension (config m) = 0 then of_nat (length (q_values query))
                         else dimension (config m) :: size_t)
               in if dm = 0 then Some Early
                  else if cfg_k (config m) = 0 then Some Early
                  else
                    let k = (if cfg_k (config m) > n then n else cfg_k (config m));
                        num_blocks = num_blocks_of n (effective_K (config m))
                    in case build_block_graph_if_needed P m of
                         None \<Rightarrow> None
                       | Some m1 \<Rightarrow>
                           let max_blocks_to_visit =
                                 (if max_steps (config m1) > 0 \<and> max_steps (config m1) < num_blocks
                                  then max_steps (config m1) else num_blocks)
                           in case entry_frontier P m1 query (unat dm) num_blocks of
                                None \<Rightarrow> None
                              | Some fr0 \<Rightarrow>
                                  Some (Visited m1 ds dm k
                                    (frontier_loop (block_neighbors m1) num_blocks
                                       (unat max_blocks_to_visit) fr0)))"

definition search_one :: "platform \<Rightarrow> AnnInSsdModel \<Rightarrow> Query \<Rightarrow> (QueryResult \<times> AnnInSsdModel) option" where
  "search_one P m query =
     (let result = \<lparr>query_id = q_id query, found_neighbors = [], found_scores = [],
                     blocks_visited = 0, portal_steps = 0, internal_reads = 0,
                     distances_computed = 0, estimated_latency_us = 0\<rparr>
      in case navigate P m query of
           None \<Rightarrow> None
         | Some Early \<Rightarrow> Some (result, m)
         | Some (Visited m1 ds dm k fr) \<Rightarrow>
             let result1 = result\<lparr>portal_steps := fr_steps fr,
                                   blocks_visited := of_nat (length (fr_order fr))\<rparr>
             in case scan_blocks P ds (block_assignment m1) (q_values query) (unat dm)
                       (code_type (config m1) = ''micro_index'') (fr_order fr) of
                  None \<Rightarrow> None
                | Some sc \<Rightarrow>
                    let result2 = result1\<lparr>distances_computed := sc_distances_computed sc,
                                          internal_reads := sc_internal_reads sc\<rparr>;
                        kk = min (unat k) (length (sc_dist_id sc))
                    in if kk = 0 then Some (result2, m1)
                       else
                         let part = nth_element P kk (sc_dist_id sc);
                             best = sort_first P (take kk part)
                         in Some (result2\<lparr>found_scores := map fst best,
                                            found_neighbors := map snd best\<rparr>, m1))"

text \<open>The blocks a query visits, in order, and the model after the lazy build.\<close>

definition visited_blocks :: "platform \<Rightarrow> AnnInSsdModel \<Rightarrow> Query \<Rightarrow> size_t list" where
  "visited_blocks P m query =
     (case navigate P m query of Some (Visited m1 ds dm k fr) \<Rightarrow> fr_order fr | _ \<Rightarrow> [])"

definition built_assignment :: "platform \<Rightarrow> AnnInSsdModel \<Rightarrow> Query \<Rightarrow> VectorID list list" where
  "built_assignment P m query =
     (case navigate P m query of Some (Visited m1 ds dm k fr) \<Rightarrow> block_assignment m1
      | _ \<Rightarrow> block_assignment m)"

text \<open>
  What one visited block adds to \<open>distances_computed\<close>: \<open>min(16, block size)\<close> under
  \<open>micro_index\<close>, the block size otherwise, the size being that of the block's assignment.
\<close>

definition charged :: "bool \<Rightarrow> VectorID list list \<Rightarrow> size_t \<Rightarrow> size_t" where
  "charged use_micro_index assignment b =
     (if use_micro_index then min 16 (of_nat (length (assignment ! unat b)))
      else of_nat (length (assignment ! unat b)))"

text \<open>The same model with another \<open>code_type\<close>.\<close>

definition with_code_type :: "string \<Rightarrow> AnnInSsdModel \<Rightarrow> AnnInSsdModel" where
  "with_code_type c m = m\<lparr>config := (config m)\<lparr>code_type := c\<rparr>\<rparr>"

fun nav_with_code_type :: "string \<Rightarrow> navigation \<Rightarrow> navigation" where
  "nav_with_code_type c Early = Early"
| "nav_with_code_type c (Visited m1 ds dm k fr) = Visited (with_code_type c m1) ds dm k fr"

text \<open>The ids \<open>[b * K, min((b + 1) * K, N))\<close> that the spec gives to block \<open>b\<close>.\<close>

definition block_range :: "nat \<Rightarrow> nat \<Rightarrow> nat \<Rightarrow> VectorID list" where
  "block_range N K b = map of_nat [b * K ..< min ((b + 1) * K) N]"

text \<open>
  A platform for evaluating the model on concrete inputs: the bit patterns are taken as
  unsigned integers, with integer arithmetic, and both library algorithms sort stably.
\<close>

definition word_platform :: platform where
  "word_platform =
     \<lparr>f_add = (+), f_sub = (-), f_mul = (*), f_div = (div), f_fma = (\<lambda>a b c. a * b + c),
      f_neg = uminus, f_sqrt = id, f_less = (<), f_of_size = ucast, avx2 = False, fma = False,
      nth_element = (\<lambda>n xs. sort_key fst xs), sort_first = sort_key fst\<rparr>"

text \<open>
  A small instance for evaluation: 22 one-dimensional vectors in blocks of 20 (a full
  block and a block of two), and a query.
\<close>

definition example_model :: AnnInSsdModel where
  "example_model =
     AnnInSsdModel_new
       \<lparr>dimension = 1, num_vectors = 0, placement_mode = ''hash_home'', vectors_per_block = 20,
         portal_degree = 1, code_type = ''raw'', hardware_level = ''L0'', cfg_k = 2,
         max_steps = 0, entry_block_strategy = ''centroid_knn''\<rparr>
       (map (\<lambda>i. [of_nat i]) [0..<22])"

definition example_query :: Query where
  "example_query = \<lparr>q_id = 0, q_values = [7], true_neighbors = []\<rparr>"

section \<open>HNSW index: state and persistence (ann/hnsw.cpp)\<close>

text \<open>
  The index object. \<open>metric_\<close> is kept as the \<open>int32\<close> value of the enum, which is what
  \<open>save\<close> writes and \<open>load\<close> casts back; \<open>compute_distance\<close> sends every value other
  than 1 and 2 to the L2 branch. \<open>entry_point_\<close> is \<open>numeric_limits<VectorID>::max()\<close> while
  the graph is empty. \<open>visited_\<close> and \<open>visited_epoch_\<close> are the scratch of
  \<open>search_layer\<close>.
\<close>

record Node =
  node_id :: VectorID
  neighbors :: "VectorID list list"

record HNSW =
  h_dim :: size_t
  h_M :: size_t
  h_ef_construction :: size_t
  h_metric :: "32 word"
  h_vectors :: "VectorData list"
  h_nodes :: "Node list"
  h_entry_point :: VectorID
  h_max_layer :: size_t
  h_visited :: "32 word list"
  h_visited_epoch :: "32 word"
  h_search_distance_computations :: "64 word"
  h_measure_search_stats :: bool

definition no_entry :: VectorID where
  "no_entry = - 1"

fun metric_tag :: "DistanceMetric \<Rightarrow> 32 word" where
  "metric_tag L2 = 0"
| "metric_tag InnerProduct = 1"
| "metric_tag Cosine = 2"

definition metric_of_tag :: "32 word \<Rightarrow> DistanceMetric" where
  "metric_of_tag t = (if t = 1 then InnerProduct else if t = 2 then Cosine else L2)"

definition HNSW_new :: "size_t \<Rightarrow> size_t \<Rightarrow> size_t \<Rightarrow> DistanceMetric \<Rightarrow> HNSW" where
  "HNSW_new dm M ef_construction metric =
     \<lparr>h_dim = dm, h_M = M, h_ef_construction = ef_construction, h_metric = metric_tag metric,
      h_vectors = [], h_nodes = [], h_entry_point = no_entry, h_max_layer = 0,
      h_visited = [], h_visited_epoch = 0, h_search_distance_computations = 0,
      h_measure_search_stats = False\<rparr>"

definition Node_default :: Node where
  "Node_default = \<lparr>node_id = 0, neighbors = []\<rparr>"

text \<open>The stream that \<open>save\<close> writes.\<close>

definition u64_bytes :: "64 word \<Rightarrow> byte list" where
  "u64_bytes w = le_bytes 8 w"

definition size_bytes :: "'a list \<Rightarrow> byte list" where
  "size_bytes xs = u64_bytes (of_nat (length xs))"

definition layer_bytes :: "VectorID list \<Rightarrow> byte list" where
  "layer_bytes layer_nbrs = size_bytes layer_nbrs @ concat (map u64_bytes layer_nbrs)"

definition node_bytes :: "Node \<Rightarrow> byte list" where
  "node_bytes n =
     u64_bytes (node_id n) @ size_bytes (neighbors n) @ concat (map layer_bytes (neighbors n))"

definition serialize :: "HNSW \<Rightarrow> byte list" where
  "serialize h =
     u64_bytes (h_dim h) @ u64_bytes (h_M h) @ u64_bytes (h_ef_construction h) @
     le_bytes 4 (h_metric h) @ u64_bytes (h_entry_point h) @ u64_bytes (h_max_layer h) @
     size_bytes (h_vectors h) @ concat (map data_bytes (h_vectors h)) @
     size_bytes (h_nodes h) @ concat (map node_bytes (h_nodes h))"

text \<open>
  \<open>save\<close>: the stream cannot be opened when the file neither exists nor can be created;
  the final state of the stream is bad when the output did not fit.
\<close>

definition save :: "HNSW \<Rightarrow> FileSystem \<Rightarrow> string \<Rightarrow> bool \<times> FileSystem" where
  "save h fs filepath =
     (if files fs filepath = None \<and> \<not> creatable fs filepath then (False, fs)
      else
        let out = serialize h
        in if disk_limit fs < length out
           then (False, fs\<lparr>files := (files fs)(filepath \<mapsto> take (disk_limit fs) out)\<rparr>)
           else (True, fs\<lparr>files := (files fs)(filepath \<mapsto> out)\<rparr>))"

text \<open>
  Readers for \<open>load\<close>: each takes the rest of the stream and fails when it is too short.
\<close>

definition read_u64 :: "byte list \<Rightarrow> (64 word \<times> byte list) option" where
  "read_u64 bs = (if length bs < 8 then None else Some (le_word (take 8 bs), drop 8 bs))"

definition read_i32 :: "byte list \<Rightarrow> (32 word \<times> byte list) option" where
  "read_i32 bs = (if length bs < 4 then None else Some (le_word (take 4 bs), drop 4 bs))"

definition read_floats :: "nat \<Rightarrow> byte list \<Rightarrow> (VectorData \<times> byte list) option" where
  "read_floats n bs =
     (if length bs < 4 * n then None else Some (bytes_data (take (4 * n) bs), drop (4 * n) bs))"

fun read_many :: "nat \<Rightarrow> (byte list \<Rightarrow> ('a \<times> byte list) option) \<Rightarrow> byte list \<Rightarrow> ('a list \<times> byte list) option" where
  "read_many 0 rd bs = Some ([], bs)"
| "read_many (Suc n) rd bs =
     (case rd bs of
        None \<Rightarrow> None
      | Some (x, bs1) \<Rightarrow>
         (case read_many n rd bs1 of
            None \<Rightarrow> None
          | Some (xs, bs2) \<Rightarrow> Some (x # xs, bs2)))"

definition read_layer :: "byte list \<Rightarrow> (VectorID list \<times> byte list) option" where
  "read_layer bs =
     (case read_u64 bs of
        None \<Rightarrow> None
      | Some (deg, bs1) \<Rightarrow> read_many (unat deg) read_u64 bs1)"

definition read_node :: "byte list \<Rightarrow> (Node \<times> byte list) option" where
  "read_node bs =
     (case read_u64 bs of
        None \<Rightarrow> None
      | Some (id_u64, bs1) \<Rightarrow>
         (case read_u64 bs1 of
            None \<Rightarrow> None
          | Some (num_layers, bs2) \<Rightarrow>
             (case read_many (unat num_layers) read_layer bs2 of
                None \<Rightarrow> None
              | Some (layers, bs3) \<Rightarrow> Some (\<lparr>node_id = id_u64, neighbors = layers\<rparr>, bs3))))"

text \<open>
  \<open>load\<close> returns \<open>None\<close> where the C++ returns false; the object is then partly
  overwritten, which the model does not follow. The scratch fields keep their values.
\<close>

definition load :: "HNSW \<Rightarrow> FileSystem \<Rightarrow> string \<Rightarrow> HNSW option" where
  "load h fs filepath =
     (case files fs filepath of
        None \<Rightarrow> None
      | Some bs0 \<Rightarrow>
         (case read_u64 bs0 of None \<Rightarrow> None | Some (dm, bs1) \<Rightarrow>
         (case read_u64 bs1 of None \<Rightarrow> None | Some (M, bs2) \<Rightarrow>
         (case read_u64 bs2 of None \<Rightarrow> None | Some (efc, bs3) \<Rightarrow>
         (case read_i32 bs3 of None \<Rightarrow> None | Some (metric_val, bs4) \<Rightarrow>
         (case read_u64 bs4 of None \<Rightarrow> None | Some (entry, bs5) \<Rightarrow>
         (case read_u64 bs5 of None \<Rightarrow> None | Some (max_l, bs6) \<Rightarrow>
         (case read_u64 bs6 of None \<Rightarrow> None | Some (n_vectors, bs7) \<Rightarrow>
         (case read_many (unat n_vectors) (read_floats (unat dm)) bs7 of
            None \<Rightarrow> None | Some (vs, bs8) \<Rightarrow>
         (case read_u64 bs8 of None \<Rightarrow> None | Some (n_nodes, bs9) \<Rightarrow>
         (case read_many (unat n_nodes) read_node bs9 of
            None \<Rightarrow> None
          | Some (ns, bs10) \<Rightarrow>
              Some (h\<lparr>h_dim := dm, h_M := M, h_ef_construction := efc, h_metric := metric_val,
                      h_entry_point := entry, h_max_layer := max_l,
                      h_vectors := vs, h_nodes := ns\<rparr>))))))))))))"

section \<open>HNSW index: layer search (ann/hnsw.cpp)\<close>

text \<open>
  A \<open>std::priority_queue\<close> is modelled by the sequence of its elements in insertion
  order: \<open>top\<close> is its first element that the comparator puts below no other, \<open>pop\<close>
  removes it. \<open>std::sort\<close> is modelled by a stable insertion sort. Which of several
  elements with equal keys comes first is left open by the C++ standard.
\<close>

type_synonym DistId = "float32 \<times> VectorID"

definition pq_top :: "('a \<Rightarrow> 'a \<Rightarrow> bool) \<Rightarrow> 'a list \<Rightarrow> 'a" where
  "pq_top cmp xs = foldl (\<lambda>m x. if cmp m x then x else m) (hd xs) (tl xs)"

definition pq_pop :: "('a \<Rightarrow> 'a \<Rightarrow> bool) \<Rightarrow> 'a list \<Rightarrow> 'a list" where
  "pq_pop cmp xs = remove1 (pq_top cmp xs) xs"

text \<open>\<open>DistIdMin\<close>, and \<open>std::less\<close> on pairs of a float and an id.\<close>

definition DistIdMin :: "platform \<Rightarrow> DistId \<Rightarrow> DistId \<Rightarrow> bool" where
  "DistIdMin P a b = f_less P (fst b) (fst a)"

definition DistId_less :: "platform \<Rightarrow> DistId \<Rightarrow> DistId \<Rightarrow> bool" where
  "DistId_less P a b =
     (f_less P (fst a) (fst b) \<or> (\<not> f_less P (fst b) (fst a) \<and> snd a < snd b))"

fun insert_sorted :: "('a \<Rightarrow> 'a \<Rightarrow> bool) \<Rightarrow> 'a \<Rightarrow> 'a list \<Rightarrow> 'a list" where
  "insert_sorted lt x [] = [x]"
| "insert_sorted lt x (y # ys) =
     (if lt y x \<or> \<not> lt x y then y # insert_sorted lt x ys else x # y # ys)"

definition std_sort :: "('a \<Rightarrow> 'a \<Rightarrow> bool) \<Rightarrow> 'a list \<Rightarrow> 'a list" where
  "std_sort lt xs = foldl (\<lambda>acc x. insert_sorted lt x acc) [] xs"

definition by_distance :: "platform \<Rightarrow> VectorID \<times> float32 \<Rightarrow> VectorID \<times> float32 \<Rightarrow> bool" where
  "by_distance P a b = f_less P (snd a) (snd b)"

text \<open>
  The fixed inputs of one \<open>search_layer\<close> call, and the state of its loop: both queues,
  the visited array and the number of distance computations.
\<close>

record layer_search =
  ls_vectors :: "VectorData list"
  ls_nodes :: "Node list"
  ls_dim :: nat
  ls_metric :: DistanceMetric
  ls_query :: VectorData
  ls_ef :: nat
  ls_layer :: nat
  ls_epoch :: "32 word"

record search_state =
  candidate_queue :: "DistId list"
  top_candidates :: "DistId list"
  ss_visited :: "32 word list"
  ss_distances :: nat

definition visit_neighbor :: "platform \<Rightarrow> layer_search \<Rightarrow> search_state option \<Rightarrow> VectorID \<Rightarrow> search_state option" where
  "visit_neighbor P c st nb =
     (case st of
        None \<Rightarrow> None
      | Some s \<Rightarrow>
          if unat nb \<ge> length (ss_visited s) then None
          else if ss_visited s ! unat nb = ls_epoch c then Some s
          else if unat nb \<ge> length (ls_vectors c) then None
          else
            case compute_distance P (ls_query c) (ls_vectors c ! unat nb) (ls_dim c) (ls_metric c) of
              None \<Rightarrow> None
            | Some d \<Rightarrow>
                let s1 = s\<lparr>ss_visited := (ss_visited s)[unat nb := ls_epoch c],
                           ss_distances := ss_distances s + 1\<rparr>
                in if length (top_candidates s1) < ls_ef c
                   then Some (s1\<lparr>candidate_queue := candidate_queue s1 @ [(d, nb)],
                                  top_candidates :=
                                    (let t = top_candidates s1 @ [(d, nb)]
                                     in if length t > ls_ef c then pq_pop (DistId_less P) t else t)\<rparr>)
                   else if top_candidates s1 = [] then None
                   else if f_less P d (fst (pq_top (DistId_less P) (top_candidates s1)))
                   then Some (s1\<lparr>candidate_queue := candidate_queue s1 @ [(d, nb)],
                                  top_candidates :=
                                    (let t = top_candidates s1 @ [(d, nb)]
                                     in if length t > ls_ef c then pq_pop (DistId_less P) t else t)\<rparr>)
                   else Some s1)"

definition unmarked :: "32 word \<Rightarrow> 32 word list \<Rightarrow> nat" where
  "unmarked e visited = length (filter (\<lambda>x. x \<noteq> e) visited)"

function search_loop :: "platform \<Rightarrow> layer_search \<Rightarrow> search_state \<Rightarrow> search_state option" where
  "search_loop P c s =
     (if candidate_queue s = [] then Some s
      else if top_candidates s = [] then None
      else
        let curr = pq_top (DistIdMin P) (candidate_queue s);
            lower_bound = fst (pq_top (DistId_less P) (top_candidates s))
        in if f_less P lower_bound (fst curr) then Some s
           else
             let s1 = s\<lparr>candidate_queue := pq_pop (DistIdMin P) (candidate_queue s)\<rparr>;
                 v = unat (snd curr)
             in if v \<ge> length (ls_nodes c) then None
                else if ls_layer c \<ge> length (neighbors (ls_nodes c ! v))
                then search_loop P c s1
                else (case foldl (visit_neighbor P c) (Some s1)
                             (neighbors (ls_nodes c ! v) ! ls_layer c) of
                        None \<Rightarrow> None
                      | Some s2 \<Rightarrow> search_loop P c s2))"
  by pat_completeness auto

lemma pq_top_fold_mem: "foldl (\<lambda>m x. if cmp m x then x else m) a xs \<in> set (a # xs)"
  by (induction xs arbitrary: a) auto

lemma pq_top_mem: "xs \<noteq> [] \<Longrightarrow> pq_top cmp xs \<in> set xs"
  using pq_top_fold_mem [of cmp "hd xs" "tl xs"] by (cases xs) (simp_all add: pq_top_def)

lemma length_pq_pop: "xs \<noteq> [] \<Longrightarrow> length (pq_pop cmp xs) = length xs - 1"
  by (simp add: pq_pop_def length_remove1 pq_top_mem)

lemma unmarked_update:
  "i < length v \<Longrightarrow> v ! i \<noteq> e \<Longrightarrow> unmarked e (v[i := e]) = unmarked e v - 1 \<and> 0 < unmarked e v"
proof (induction v arbitrary: i)
  case Nil
  then show ?case by simp
next
  case (Cons x v)
  show ?case
  proof (cases i)
    case 0
    with Cons.prems show ?thesis by (simp add: unmarked_def)
  next
    case (Suc j)
    with Cons.prems Cons.IH [of j] show ?thesis
      by (auto simp: unmarked_def)
  qed
qed

lemma visit_neighbor_measure:
  "visit_neighbor P c (Some s) nb = Some s' \<Longrightarrow>
     unmarked (ls_epoch c) (ss_visited s') + length (candidate_queue s')
       \<le> unmarked (ls_epoch c) (ss_visited s) + length (candidate_queue s)"
  using unmarked_update [of "unat nb" "ss_visited s" "ls_epoch c"]
  by (auto simp: visit_neighbor_def Let_def split: if_splits option.splits)

lemma visit_neighbor_None [simp]: "visit_neighbor P c None nb = None"
  by (simp add: visit_neighbor_def)

lemma foldl_visit_None [simp]: "foldl (visit_neighbor P c) None nbs = None"
  by (induction nbs) simp_all

lemma foldl_visit_measure:
  "foldl (visit_neighbor P c) (Some s) nbs = Some s' \<Longrightarrow>
     unmarked (ls_epoch c) (ss_visited s') + length (candidate_queue s')
       \<le> unmarked (ls_epoch c) (ss_visited s) + length (candidate_queue s)"
proof (induction nbs arbitrary: s)
  case Nil
  then show ?case by simp
next
  case (Cons nb nbs)
  show ?case
  proof (cases "visit_neighbor P c (Some s) nb")
    case None
    with Cons.prems show ?thesis by simp
  next
    case (Some s1)
    with Cons.prems have "foldl (visit_neighbor P c) (Some s1) nbs = Some s'" by simp
    from Cons.IH [OF this] visit_neighbor_measure [OF Some] show ?thesis by linarith
  qed
qed

termination search_loop
proof (relation "measure (\<lambda>(P, c, s). unmarked (ls_epoch c) (ss_visited s) + length (candidate_queue s))",
    goal_cases)
  case 1
  then show ?case by simp
next
  case (2 P c s curr lower_bound s1 v)
  then show ?case by (simp add: length_pq_pop)
next
  case (3 P c s curr lower_bound s1 v s2)
  then have "\<exists>nbs. foldl (visit_neighbor P c) (Some s1) nbs = Some s2"
    by auto
  then obtain nbs where "foldl (visit_neighbor P c) (Some s1) nbs = Some s2" ..
  from foldl_visit_measure [OF this]
  have "unmarked (ls_epoch c) (ss_visited s2) + length (candidate_queue s2)
      \<le> unmarked (ls_epoch c) (ss_visited s1) + length (candidate_queue s1)" .
  moreover from 3 obtain n where n: "length (candidate_queue s) = Suc n"
    by (cases "candidate_queue s") auto
  moreover from 3 n have "length (candidate_queue s1) = n" "ss_visited s1 = ss_visited s"
    by (simp_all add: length_pq_pop)
  ultimately have "unmarked (ls_epoch c) (ss_visited s2) + length (candidate_queue s2)
      < unmarked (ls_epoch c) (ss_visited s) + length (candidate_queue s)"
    by simp
  then show ?case by simp
qed

text \<open>Emptying \<open>top_candidates\<close>: the elements in the order in which they are popped.\<close>

function drain :: "('a \<Rightarrow> 'a \<Rightarrow> bool) \<Rightarrow> 'a list \<Rightarrow> 'a list" where
  "drain cmp xs = (if xs = [] then [] else pq_top cmp xs # drain cmp (pq_pop cmp xs))"
  by pat_completeness auto

termination drain
  by (relation "measure (\<lambda>(cmp, xs). length xs)") (auto simp: length_pq_pop)

text \<open>
  \<open>search_layer\<close>: the result as pairs of id and distance in ascending order of
  distance, and the object with its scratch and its distance counter updated.
\<close>

definition search_layer ::
  "platform \<Rightarrow> HNSW \<Rightarrow> VectorData \<Rightarrow> VectorID \<Rightarrow> nat \<Rightarrow> nat \<Rightarrow>
     ((VectorID \<times> float32) list \<times> HNSW) option" where
  "search_layer P h query entry ef layer =
     (if h_vectors h = [] \<or> entry = no_entry then Some ([], h)
      else
        let visited0 = (if length (h_visited h) < length (h_vectors h)
                        then replicate (length (h_vectors h)) 0 else h_visited h);
            epoch1 = h_visited_epoch h + 1;
            visited1 = (if epoch1 = 0 then replicate (length visited0) 0 else visited0);
            epoch = (if epoch1 = 0 then 1 else epoch1)
        in if unat entry \<ge> length (h_vectors h) then None
           else
             case compute_distance P query (h_vectors h ! unat entry) (unat (h_dim h))
                    (metric_of_tag (h_metric h)) of
               None \<Rightarrow> None
             | Some entry_dist \<Rightarrow>
                 let c = \<lparr>ls_vectors = h_vectors h, ls_nodes = h_nodes h, ls_dim = unat (h_dim h),
                          ls_metric = metric_of_tag (h_metric h), ls_query = query, ls_ef = ef,
                          ls_layer = layer, ls_epoch = epoch\<rparr>;
                     s0 = \<lparr>candidate_queue = [(entry_dist, entry)],
                           top_candidates = [(entry_dist, entry)],
                           ss_visited = visited1[unat entry := epoch], ss_distances = 1\<rparr>
                 in case search_loop P c s0 of
                      None \<Rightarrow> None
                    | Some s \<Rightarrow>
                        Some (std_sort (by_distance P)
                                (map (\<lambda>di. (snd di, fst di)) (drain (DistId_less P) (top_candidates s))),
                              h\<lparr>h_visited := ss_visited s, h_visited_epoch := epoch,
                                h_search_distance_computations :=
                                  (if h_measure_search_stats h
                                   then h_search_distance_computations h + of_nat (ss_distances s)
                                   else h_search_distance_computations h)\<rparr>))"

text \<open>
  A greedy descent: \<open>search_layer\<close> with \<open>ef = 1\<close> on each of the given layers in turn,
  moving the entry point to the best result.
\<close>

definition descend_step ::
  "platform \<Rightarrow> VectorData \<Rightarrow> (VectorID \<times> HNSW) option \<Rightarrow> nat \<Rightarrow> (VectorID \<times> HNSW) option" where
  "descend_step P query st l =
     (case st of
        None \<Rightarrow> None
      | Some (ep, h) \<Rightarrow>
         (case search_layer P h query ep 1 l of
            None \<Rightarrow> None
          | Some (res, h1) \<Rightarrow> Some (if res = [] then ep else fst (hd res), h1)))"

text \<open>\<open>static_cast<int>\<close> of a \<open>size_t\<close>, and the layers \<open>hi, hi - 1, ..., lo\<close>.\<close>

definition int_cast :: "size_t \<Rightarrow> int" where
  "int_cast w = sint (ucast w :: 32 word)"

definition layers_down :: "nat \<Rightarrow> nat \<Rightarrow> nat list" where
  "layers_down hi lo = rev [lo..<Suc hi]"

definition search ::
  "platform \<Rightarrow> HNSW \<Rightarrow> VectorData \<Rightarrow> nat \<Rightarrow> nat \<Rightarrow> (VectorID list \<times> HNSW) option" where
  "search P h query k ef_search =
     (if h_vectors h = [] \<or> h_entry_point h = no_entry then Some ([], h)
      else
        case foldl (descend_step P query) (Some (h_entry_point h, h))
               (if int_cast (h_max_layer h) > 0
                then layers_down (nat (int_cast (h_max_layer h))) 1 else []) of
          None \<Rightarrow> None
        | Some (ep, h1) \<Rightarrow>
           (case search_layer P h1 query ep ef_search 0 of
              None \<Rightarrow> None
            | Some (res0, h2) \<Rightarrow>
                if res0 = [] then Some ([], h2)
                else Some (map fst (take (min k (length res0)) res0), h2)))"

section \<open>HNSW index: construction (ann/hnsw.cpp)\<close>

text \<open>
  \<open>select_neighbors_heuristic\<close>. \<open>check_good\<close> is the inner loop over the neighbours
  accepted so far, which stops at the first one that is closer to the candidate than the
  anchor is; the first pass stops as soon as \<open>max_keep\<close> candidates are accepted; the
  second pass fills up from the candidates in order.
\<close>

fun check_good :: "platform \<Rightarrow> HNSW \<Rightarrow> VectorID \<Rightarrow> float32 \<Rightarrow> VectorID list \<Rightarrow> bool option" where
  "check_good P h cid dist_q_c [] = Some True"
| "check_good P h cid dist_q_c (sid # rest) =
     (if unat sid \<ge> length (h_vectors h) \<or> unat cid \<ge> length (h_vectors h) then None
      else
        case compute_distance P (h_vectors h ! unat sid) (h_vectors h ! unat cid)
               (unat (h_dim h)) (metric_of_tag (h_metric h)) of
          None \<Rightarrow> None
        | Some dist_s_c \<Rightarrow>
            if f_less P dist_s_c dist_q_c then Some False
            else check_good P h cid dist_q_c rest)"

definition select_accept ::
  "platform \<Rightarrow> HNSW \<Rightarrow> nat \<Rightarrow> (VectorID list \<times> bool) option \<Rightarrow> VectorID \<times> float32 \<Rightarrow>
     (VectorID list \<times> bool) option" where
  "select_accept P h max_keep st cand =
     (case st of
        None \<Rightarrow> None
      | Some (result, stop) \<Rightarrow>
          if stop then Some (result, stop)
          else
            case check_good P h (fst cand) (snd cand) result of
              None \<Rightarrow> None
            | Some good \<Rightarrow>
                if good then Some (result @ [fst cand], length (result @ [fst cand]) \<ge> max_keep)
                else Some (result, False))"

definition select_fill :: "nat \<Rightarrow> VectorID list \<Rightarrow> VectorID \<times> float32 \<Rightarrow> VectorID list" where
  "select_fill max_keep result cand =
     (if length result \<ge> max_keep then result
      else if fst cand \<in> set result then result
      else result @ [fst cand])"

definition select_neighbors_heuristic ::
  "platform \<Rightarrow> HNSW \<Rightarrow> (VectorID \<times> float32) list \<Rightarrow> nat \<Rightarrow> VectorID list option" where
  "select_neighbors_heuristic P h candidates M =
     (if candidates = [] \<or> M = 0 then Some []
      else
        let sorted = std_sort (by_distance P) candidates;
            max_keep = min M (length sorted)
        in case foldl (select_accept P h max_keep) (Some ([], False)) sorted of
             None \<Rightarrow> None
           | Some (result, stop) \<Rightarrow>
               Some (if length result < max_keep
                     then foldl (select_fill max_keep) result sorted else result))"

text \<open>
  \<open>insert_node\<close>, with the level that \<open>assign_layer\<close> drew as an input. Levels are
  natural numbers here; the casts to \<open>int\<close> are exact below \<open>2^31\<close>.
\<close>

definition ensure_layers :: "nat \<Rightarrow> Node \<Rightarrow> Node" where
  "ensure_layers n node =
     (if length (neighbors node) < n then node\<lparr>neighbors := resize n [] (neighbors node)\<rparr>
      else node)"

definition layer_cap :: "HNSW \<Rightarrow> nat \<Rightarrow> nat" where
  "layer_cap h l = unat (if l = 0 then h_M h * 2 else h_M h)"

text \<open>
  One turn of the loop over the chosen neighbours at layer \<open>l\<close>: \<open>push_self\<close> is the
  edge from the new node, \<open>link_back\<close> the edge back with the pruning of the neighbour's
  list when it exceeds its cap.
\<close>

definition distances_from ::
  "platform \<Rightarrow> HNSW \<Rightarrow> VectorID \<Rightarrow> VectorID list \<Rightarrow> (VectorID \<times> float32) list option" where
  "distances_from P h ref nb_list =
     (if unat ref \<ge> length (h_vectors h) then None
      else those (map (\<lambda>nid.
             if unat nid \<ge> length (h_vectors h) then None
             else map_option (\<lambda>d. (nid, d))
                    (compute_distance P (h_vectors h ! unat ref) (h_vectors h ! unat nid)
                       (unat (h_dim h)) (metric_of_tag (h_metric h))))
           nb_list))"

definition link_back :: "platform \<Rightarrow> VectorID \<Rightarrow> nat \<Rightarrow> HNSW option \<Rightarrow> VectorID \<Rightarrow> HNSW option" where
  "link_back P i l st neighbor_id =
     (case st of
        None \<Rightarrow> None
      | Some h \<Rightarrow>
          if unat neighbor_id \<ge> length (h_nodes h) then None
          else
            let nb_node = ensure_layers (l + 1) (h_nodes h ! unat neighbor_id);
                nb_list = neighbors nb_node ! l @ [i]
            in if length nb_list > layer_cap h l
               then
                 case distances_from P h neighbor_id nb_list of
                   None \<Rightarrow> None
                 | Some cand_nb \<Rightarrow>
                    (case select_neighbors_heuristic P h cand_nb (layer_cap h l) of
                       None \<Rightarrow> None
                     | Some pruned \<Rightarrow>
                         Some (h\<lparr>h_nodes := (h_nodes h)[unat neighbor_id :=
                           nb_node\<lparr>neighbors := (neighbors nb_node)[l := pruned]\<rparr>]\<rparr>))
               else Some (h\<lparr>h_nodes := (h_nodes h)[unat neighbor_id :=
                      nb_node\<lparr>neighbors := (neighbors nb_node)[l := nb_list]\<rparr>]\<rparr>))"

definition push_self :: "VectorID \<Rightarrow> nat \<Rightarrow> HNSW option \<Rightarrow> VectorID \<Rightarrow> HNSW option" where
  "push_self i l st neighbor_id =
     (case st of
        None \<Rightarrow> None
      | Some h \<Rightarrow>
          if unat i \<ge> length (h_nodes h) then None
          else
            let node = h_nodes h ! unat i
            in if l \<ge> length (neighbors node) then None
               else Some (h\<lparr>h_nodes := (h_nodes h)[unat i :=
                      node\<lparr>neighbors := (neighbors node)[l := neighbors node ! l @ [neighbor_id]]\<rparr>]\<rparr>))"

definition connect_neighbor :: "platform \<Rightarrow> VectorID \<Rightarrow> nat \<Rightarrow> HNSW option \<Rightarrow> VectorID \<Rightarrow> HNSW option" where
  "connect_neighbor P i l st neighbor_id = link_back P i l (push_self i l st neighbor_id) neighbor_id"

definition connect_layer ::
  "platform \<Rightarrow> VectorID \<Rightarrow> VectorData \<Rightarrow> VectorID \<Rightarrow> HNSW option \<Rightarrow> nat \<Rightarrow> HNSW option" where
  "connect_layer P i vec ep st l =
     (case st of
        None \<Rightarrow> None
      | Some h \<Rightarrow>
         (case search_layer P h vec ep (unat (h_ef_construction h)) l of
            None \<Rightarrow> None
          | Some (candidates, h1) \<Rightarrow>
             (case select_neighbors_heuristic P h1 candidates (layer_cap h1 l) of
                None \<Rightarrow> None
              | Some neigh_ids \<Rightarrow>
                  if unat i \<ge> length (h_nodes h1) then None
                  else
                    let h2 = h1\<lparr>h_nodes := (h_nodes h1)[unat i :=
                               ensure_layers (l + 1) (h_nodes h1 ! unat i)]\<rparr>
                    in foldl (connect_neighbor P i l) (Some h2) neigh_ids)))"

definition insert_node :: "platform \<Rightarrow> HNSW \<Rightarrow> VectorID \<Rightarrow> VectorData \<Rightarrow> nat \<Rightarrow> HNSW option" where
  "insert_node P h i vec level =
     (let nodes1 = (if length (h_nodes h) \<le> unat i
                    then resize (unat (i + 1)) Node_default (h_nodes h) else h_nodes h)
      in if unat i \<ge> length nodes1 then None
         else
           let h1 = h\<lparr>h_nodes := nodes1[unat i :=
                       ensure_layers (level + 1) ((nodes1 ! unat i)\<lparr>node_id := i\<rparr>)]\<rparr>
           in if h_entry_point h = no_entry
              then Some (h1\<lparr>h_entry_point := i, h_max_layer := of_nat level\<rparr>)
              else
                case (if unat (h_max_layer h) > level
                      then foldl (descend_step P vec) (Some (h_entry_point h, h1))
                             (layers_down (unat (h_max_layer h)) (level + 1))
                      else Some (h_entry_point h, h1)) of
                  None \<Rightarrow> None
                | Some (ep, h2) \<Rightarrow>
                    let top_layer = of_nat (min (unat (h_max_layer h)) level) :: size_t
                    in case foldl (connect_layer P i vec ep) (Some h2)
                              (if int_cast top_layer \<ge> 0
                               then layers_down (nat (int_cast top_layer)) 0 else []) of
                         None \<Rightarrow> None
                       | Some h3 \<Rightarrow>
                           Some (if level > unat (h_max_layer h3)
                                 then h3\<lparr>h_max_layer := of_nat level, h_entry_point := i\<rparr>
                                 else h3))"

text \<open>
  \<open>build\<close>: \<open>reset_for_build\<close>, then the nodes in ascending order of id; \<open>levels i\<close> is
  what the \<open>i\<close>-th call of \<open>assign_layer\<close> returns.
\<close>

definition reset_for_build :: "HNSW \<Rightarrow> VectorData list \<Rightarrow> HNSW" where
  "reset_for_build h data =
     h\<lparr>h_vectors := data, h_nodes := replicate (length data) Node_default,
       h_entry_point := no_entry, h_max_layer := 0\<rparr>"

definition build_step :: "platform \<Rightarrow> (nat \<Rightarrow> nat) \<Rightarrow> HNSW option \<Rightarrow> nat \<Rightarrow> HNSW option" where
  "build_step P levels st i =
     (case st of
        None \<Rightarrow> None
      | Some h \<Rightarrow> insert_node P h (of_nat i) (h_vectors h ! i) (levels i))"

definition build :: "platform \<Rightarrow> (nat \<Rightarrow> nat) \<Rightarrow> HNSW \<Rightarrow> VectorData list \<Rightarrow> HNSW option" where
  "build P levels h data =
     foldl (build_step P levels) (Some (reset_for_build h data)) [0..<length data]"

section \<open>HNSW index: parallel construction (ann/hnsw.cpp)\<close>

text \<open>
  \<open>search_layer_parallel\<close>: the loop of \<open>search_layer\<close> on the caller's own visited array
  and epoch. The distance to the entry point is not counted.
\<close>

definition search_layer_parallel ::
  "platform \<Rightarrow> HNSW \<Rightarrow> VectorData \<Rightarrow> VectorID \<Rightarrow> nat \<Rightarrow> nat \<Rightarrow> 32 word list \<Rightarrow> 32 word \<Rightarrow>
     ((VectorID \<times> float32) list \<times> 32 word list \<times> 32 word \<times> HNSW) option" where
  "search_layer_parallel P h query entry ef layer visited visited_epoch =
     (if h_vectors h = [] \<or> entry = no_entry then Some ([], visited, visited_epoch, h)
      else
        let visited0 = (if length visited < length (h_vectors h)
                        then replicate (length (h_vectors h)) 0 else visited);
            epoch1 = visited_epoch + 1;
            visited1 = (if epoch1 = 0 then replicate (length visited0) 0 else visited0);
            epoch = (if epoch1 = 0 then 1 else epoch1)
        in if unat entry \<ge> length (h_vectors h) then None
           else
             case compute_distance P query (h_vectors h ! unat entry) (unat (h_dim h))
                    (metric_of_tag (h_metric h)) of
               None \<Rightarrow> None
             | Some entry_dist \<Rightarrow>
                 let c = \<lparr>ls_vectors = h_vectors h, ls_nodes = h_nodes h, ls_dim = unat (h_dim h),
                          ls_metric = metric_of_tag (h_metric h), ls_query = query, ls_ef = ef,
                          ls_layer = layer, ls_epoch = epoch\<rparr>;
                     s0 = \<lparr>candidate_queue = [(entry_dist, entry)],
                           top_candidates = [(entry_dist, entry)],
                           ss_visited = visited1[unat entry := epoch], ss_distances = 0\<rparr>
                 in case search_loop P c s0 of
                      None \<Rightarrow> None
                    | Some s \<Rightarrow>
                        Some (std_sort (by_distance P)
                                (map (\<lambda>di. (snd di, fst di)) (drain (DistId_less P) (top_candidates s))),
                              ss_visited s, epoch,
                              h\<lparr>h_search_distance_computations :=
                                  (if h_measure_search_stats h
                                   then h_search_distance_computations h + of_nat (ss_distances s)
                                   else h_search_distance_computations h)\<rparr>))"

text \<open>
  A worker thread of \<open>build_parallel\<close>: its scratch, and the insertion it is in the
  middle of, if any. An insertion is cut at the points where the thread holds no mutex:
  \<open>Select\<close> is the search and the selection at the current layer, \<open>Self\<close> the update of
  the node's own list under its mutex, \<open>Neighbours\<close> the symmetric updates, \<open>Finish\<close> the
  update of the entry point. Each piece runs without interruption, which is one of the
  ways in which the threads can be scheduled.
\<close>

datatype pc = Select | Self | Neighbours | Finish

record job =
  j_id :: VectorID
  j_level :: nat
  j_ep :: VectorID
  j_cur_max_layer :: size_t
  j_layer :: int
  j_neigh_ids :: "VectorID list"
  j_pc :: pc

record worker =
  w_visited :: "32 word list"
  w_visited_epoch :: "32 word"
  w_job :: "job option"
  w_exited :: bool

record parallel_build =
  pb_index :: HNSW
  pb_next_id :: VectorID
  pb_workers :: "worker list"

definition worker_new :: worker where
  "worker_new = \<lparr>w_visited = [], w_visited_epoch = 0, w_job = None, w_exited = False\<rparr>"

definition descend_step_parallel ::
  "platform \<Rightarrow> VectorData \<Rightarrow> (VectorID \<times> 32 word list \<times> 32 word \<times> HNSW) option \<Rightarrow> nat \<Rightarrow>
     (VectorID \<times> 32 word list \<times> 32 word \<times> HNSW) option" where
  "descend_step_parallel P query st l =
     (case st of
        None \<Rightarrow> None
      | Some (ep, visited, visited_epoch, h) \<Rightarrow>
         (case search_layer_parallel P h query ep 1 l visited visited_epoch of
            None \<Rightarrow> None
          | Some (res, visited1, epoch1, h1) \<Rightarrow>
              Some (if res = [] then ep else fst (hd res), visited1, epoch1, h1)))"

text \<open>
  The start of \<open>insert_node_parallel\<close>, up to the loop over the layers: the node is
  initialised, the entry point is read, and the upper layers are descended.
\<close>

definition start_insert ::
  "platform \<Rightarrow> HNSW \<Rightarrow> worker \<Rightarrow> VectorID \<Rightarrow> nat \<Rightarrow> (HNSW \<times> worker) option" where
  "start_insert P h w i level =
     (if unat i \<ge> length (h_nodes h) \<or> unat i \<ge> length (h_vectors h) then None
      else
        let h1 = h\<lparr>h_nodes := (h_nodes h)[unat i :=
                    ensure_layers (level + 1) ((h_nodes h ! unat i)\<lparr>node_id := i\<rparr>)]\<rparr>;
            ep = h_entry_point h1;
            cur_max_layer = h_max_layer h1
        in if ep = no_entry
           then Some (h1\<lparr>h_entry_point := i, h_max_layer := of_nat level\<rparr>, w)
           else
             case (if unat cur_max_layer > level
                   then foldl (descend_step_parallel P (h_vectors h ! unat i))
                          (Some (ep, w_visited w, w_visited_epoch w, h1))
                          (layers_down (unat cur_max_layer) (level + 1))
                   else Some (ep, w_visited w, w_visited_epoch w, h1)) of
               None \<Rightarrow> None
             | Some (ep1, visited, visited_epoch, h2) \<Rightarrow>
                 let l = int_cast (of_nat (min (unat cur_max_layer) level))
                 in Some (h2, w\<lparr>w_visited := visited, w_visited_epoch := visited_epoch,
                            w_job := Some \<lparr>j_id = i, j_level = level, j_ep = ep1,
                              j_cur_max_layer = cur_max_layer, j_layer = l, j_neigh_ids = [],
                              j_pc = (if l \<ge> 0 then Select else Finish)\<rparr>\<rparr>))"

definition continue_insert :: "platform \<Rightarrow> HNSW \<Rightarrow> worker \<Rightarrow> job \<Rightarrow> (HNSW \<times> worker) option" where
  "continue_insert P h w j =
     (let l = nat (j_layer j); i = j_id j
      in case j_pc j of
           Select \<Rightarrow>
             if unat i \<ge> length (h_vectors h) then None
             else
              (case search_layer_parallel P h (h_vectors h ! unat i) (j_ep j)
                      (unat (h_ef_construction h)) l (w_visited w) (w_visited_epoch w) of
                 None \<Rightarrow> None
               | Some (candidates, visited, visited_epoch, h1) \<Rightarrow>
                  (case select_neighbors_heuristic P h1 candidates (layer_cap h1 l) of
                     None \<Rightarrow> None
                   | Some neigh_ids \<Rightarrow>
                       Some (h1, w\<lparr>w_visited := visited, w_visited_epoch := visited_epoch,
                                   w_job := Some (j\<lparr>j_neigh_ids := neigh_ids, j_pc := Self\<rparr>)\<rparr>)))
         | Self \<Rightarrow>
             if unat i \<ge> length (h_nodes h) then None
             else
              (case foldl (push_self i l)
                      (Some (h\<lparr>h_nodes := (h_nodes h)[unat i :=
                                 ensure_layers (l + 1) (h_nodes h ! unat i)]\<rparr>))
                      (j_neigh_ids j) of
                 None \<Rightarrow> None
               | Some h1 \<Rightarrow> Some (h1, w\<lparr>w_job := Some (j\<lparr>j_pc := Neighbours\<rparr>)\<rparr>))
         | Neighbours \<Rightarrow>
             (case foldl (link_back P i l) (Some h) (j_neigh_ids j) of
                None \<Rightarrow> None
              | Some h1 \<Rightarrow>
                  Some (h1, w\<lparr>w_job := Some (j\<lparr>j_layer := j_layer j - 1,
                              j_pc := (if j_layer j - 1 \<ge> 0 then Select else Finish)\<rparr>)\<rparr>))
         | Finish \<Rightarrow>
             Some (if j_level j > unat (j_cur_max_layer j) \<and> j_level j > unat (h_max_layer h)
                   then h\<lparr>h_max_layer := of_nat (j_level j), h_entry_point := i\<rparr> else h,
                   w\<lparr>w_job := None\<rparr>))"

text \<open>
  One piece of work of worker \<open>t\<close>: the next piece of its insertion, or the fetch of the
  next id from the shared counter and the start of that insertion, or the exit from the
  loop when the counter has reached the number of vectors.
\<close>

definition worker_step :: "platform \<Rightarrow> (nat \<Rightarrow> nat) \<Rightarrow> parallel_build option \<Rightarrow> nat \<Rightarrow> parallel_build option" where
  "worker_step P levels st t =
     (case st of
        None \<Rightarrow> None
      | Some S \<Rightarrow>
          if t \<ge> length (pb_workers S) then None
          else
            let w = pb_workers S ! t
            in if w_exited w then Some S
               else
                 case w_job w of
                   Some j \<Rightarrow>
                     map_option (\<lambda>(h, w1). S\<lparr>pb_index := h, pb_workers := (pb_workers S)[t := w1]\<rparr>)
                       (continue_insert P (pb_index S) w j)
                 | None \<Rightarrow>
                     let i = pb_next_id S;
                         S1 = S\<lparr>pb_next_id := i + 1\<rparr>
                     in if i \<ge> of_nat (length (h_vectors (pb_index S)))
                        then Some (S1\<lparr>pb_workers := (pb_workers S)[t := w\<lparr>w_exited := True\<rparr>]\<rparr>)
                        else
                          map_option (\<lambda>(h, w1). S1\<lparr>pb_index := h, pb_workers := (pb_workers S)[t := w1]\<rparr>)
                            (start_insert P (pb_index S) w i (levels (unat i))))"

text \<open>
  \<open>build_parallel\<close> under a schedule, which names the worker that runs each piece in
  turn. The result is \<open>None\<close> also when the schedule ends before every worker has left
  its loop, that is, before the threads can be joined.
\<close>

definition build_parallel ::
  "platform \<Rightarrow> (nat \<Rightarrow> nat) \<Rightarrow> HNSW \<Rightarrow> VectorData list \<Rightarrow> nat \<Rightarrow> nat list \<Rightarrow> HNSW option" where
  "build_parallel P levels h data num_threads schedule =
     (if num_threads \<le> 1 then build P levels h data
      else if data = [] then Some (reset_for_build h data)
      else
        case insert_node P (reset_for_build h data) 0 (data ! 0) (levels 0) of
          None \<Rightarrow> None
        | Some h1 \<Rightarrow>
           (case foldl (worker_step P levels)
                   (Some \<lparr>pb_index = h1, pb_next_id = 1,
                          pb_workers = replicate num_threads worker_new\<rparr>) schedule of
              None \<Rightarrow> None
            | Some S \<Rightarrow> if list_all w_exited (pb_workers S) then Some (pb_index S) else None))"

text \<open>
  Scenario F: the ten points \<open>(i, 0)\<close>, \<open>M = 4\<close>, \<open>ef_construction = 50\<close>, four threads.
  With \<open>mt19937_64(42)\<close> in each thread and one draw for each uniform float, the first
  three insertions of a thread get level 0 and its fourth gets level 1. In the schedule,
  worker 0 inserts the nodes 1 to 4, worker 1 the nodes 5 to 7 and node 8 up to its
  selection at layer 0; worker 2 then inserts node 9, and worker 1 completes node 8.
\<close>

definition line_data :: "VectorData list" where
  "line_data = map (\<lambda>i. [of_nat i, 0]) [0..<10]"

definition scenario_levels :: "nat \<Rightarrow> nat" where
  "scenario_levels i = (if i = 4 \<or> i = 8 then 1 else 0)"

definition scenario_schedule :: "nat list" where
  "scenario_schedule =
     [0, 0, 0, 0, 0,  0, 0, 0, 0, 0,  0, 0, 0, 0, 0,  0, 0, 0, 0, 0,
      1, 1, 1, 1, 1,  1, 1, 1, 1, 1,  1, 1, 1, 1, 1,
      1, 1, 1, 1, 1,
      2, 2, 2, 2, 2,
      1, 1, 1,
      0, 1, 2, 3]"

definition degree :: "nat \<Rightarrow> nat \<Rightarrow> HNSW \<Rightarrow> nat" where
  "degree n l h = length (neighbors (h_nodes h ! n) ! l)"

section \<open>Properties of the in-memory backend\<close>

lemma length_resize: "length (resize n v xs) = n"
  by (simp add: resize_def)

lemma nth_resize:
  "i < n \<Longrightarrow> resize n v xs ! i = (if i < length xs then xs ! i else v)"
  by (simp add: resize_def nth_append)

lemma mem_read_ok_iff: "mem_inv mb \<Longrightarrow> mem_read_ok mb i = mem_present mb i"
  by (auto simp: mem_read_ok_def mem_read_node_def mem_inv_def mem_present_def Let_def)

lemma mem_read_node_state:
  "mem_read_node mb i out = Some (ok, out', mb') \<Longrightarrow>
     mb_data mb' = mb_data mb \<and> mb_present mb' = mb_present mb"
  by (auto simp: mem_read_node_def Let_def split: if_splits)

lemma unat_succ_nonzero: "(w :: 64 word) + 1 \<noteq> 0 \<Longrightarrow> unat (w + 1) = unat w + 1"
  using unatSuc [of w] by (simp add: add.commute)

lemma mem_write_node_Some:
  assumes "mem_write_node mb i v = Some (ok, mb')" and "mem_inv mb"
  shows "ok" and "mem_inv mb'"
    and "mem_present mb' j = (j = i \<or> mem_present mb j)"
    and "length (mb_data mb') = max (length (mb_data mb)) (unat i + 1)"
proof -
  let ?grow = "length (mb_data mb) \<le> unat i"
  let ?n = "unat (i + 1)"
  from assms(1) show "ok"
    by (auto simp: mem_write_node_def Let_def split: if_splits)
  have nz: "i + 1 \<noteq> 0" if "?grow"
  proof
    assume "i + 1 = 0"
    with that assms(1) show False
      by (simp add: mem_write_node_def Let_def length_resize)
  qed
  then have n: "?n = unat i + 1" if "?grow"
    using that by (simp add: unat_succ_nonzero)
  from assms show "mem_inv mb'"
    by (auto simp: mem_write_node_def Let_def mem_inv_def length_resize split: if_splits)
  from assms n show "length (mb_data mb') = max (length (mb_data mb)) (unat i + 1)"
    by (auto simp: mem_write_node_def Let_def length_resize max_def split: if_splits)
  show "mem_present mb' j = (j = i \<or> mem_present mb j)"
  proof (cases ?grow)
    case True
    with assms n [OF True] show ?thesis
      by (auto simp: mem_write_node_def Let_def mem_inv_def mem_present_def length_resize
            nth_resize nth_list_update word_unat_eq_iff split: if_splits)
  next
    case False
    with assms show ?thesis
      by (auto simp: mem_write_node_def Let_def mem_inv_def mem_present_def
            nth_list_update word_unat_eq_iff split: if_splits)
  qed
qed

lemma mem_run_present:
  "mem_run mb ops = Some mb' \<Longrightarrow> mem_inv mb \<Longrightarrow>
     mem_inv mb' \<and> (\<forall>j. mem_present mb' j = (written ops j \<or> mem_present mb j))"
proof (induction mb ops rule: mem_run.induct)
  case (1 mb)
  then show ?case by (simp add: written_def)
next
  case (2 mb i v ops)
  from "2.prems"(1) obtain ok mb1 where w: "mem_write_node mb i v = Some (ok, mb1)"
    and r: "mem_run mb1 ops = Some mb'"
    by (auto split: option.splits)
  from mem_write_node_Some [OF w "2.prems"(2)]
  have inv1: "mem_inv mb1" and p1: "\<And>j. mem_present mb1 j = (j = i \<or> mem_present mb j)"
    by auto
  from "2.IH" [OF w refl r inv1] p1 show ?case
    by (auto simp: written_def)
next
  case (3 mb i ops)
  from "3.prems"(1) obtain ok out mb1 where rd: "mem_read_node mb i [] = Some (ok, out, mb1)"
    and r: "mem_run mb1 ops = Some mb'"
    by (auto split: option.splits)
  from mem_read_node_state [OF rd] "3.prems"(2)
  have inv1: "mem_inv mb1" and p1: "\<And>j. mem_present mb1 j = mem_present mb j"
    by (auto simp: mem_inv_def mem_present_def)
  from "3.IH" [OF rd refl refl r inv1] p1 show ?case
    by (auto simp: written_def)
qed

lemma mem_inv_new: "mem_inv MemoryBackend_new" "\<not> mem_present MemoryBackend_new j"
  by (simp_all add: mem_inv_def mem_present_def MemoryBackend_new_def)

text \<open>
  C10. Starting from a fresh in-memory backend and running any sequence of writes and
  reads: a read of \<open>i\<close> succeeds exactly when some earlier write of \<open>i\<close> was made; a
  further write to an id at or beyond the current size succeeds and grows the storage to
  \<open>id + 1\<close> slots; and every slot of the grown range below \<open>id\<close> still reads as not
  found.
\<close>

theorem memory_read_iff_written:
  assumes "mem_run MemoryBackend_new ops = Some mb"
  shows "mem_read_ok mb i = written ops i \<and>
    (\<forall>v ok mb'. mem_write_node mb i v = Some (ok, mb') \<and> length (mb_data mb) \<le> unat i \<longrightarrow>
       ok \<and> length (mb_data mb') = unat i + 1 \<and> mem_read_ok mb' i \<and>
       (\<forall>j. length (mb_data mb) \<le> unat j \<and> unat j < unat i \<longrightarrow> \<not> mem_read_ok mb' j))"
proof -
  from mem_run_present [OF assms mem_inv_new(1)]
  have inv: "mem_inv mb" and pres: "\<And>j. mem_present mb j = written ops j"
    by (auto simp: mem_inv_new(2))
  have rd: "mem_read_ok mb i = written ops i"
    by (simp add: mem_read_ok_iff [OF inv] pres)
  have wr: "ok \<and> length (mb_data mb') = unat i + 1 \<and> mem_read_ok mb' i \<and>
      (\<forall>j. length (mb_data mb) \<le> unat j \<and> unat j < unat i \<longrightarrow> \<not> mem_read_ok mb' j)"
    if w: "mem_write_node mb i v = Some (ok, mb')" and g: "length (mb_data mb) \<le> unat i"
    for v ok mb'
  proof -
    note W = mem_write_node_Some [OF w inv]
    have "\<not> mem_read_ok mb' j" if "length (mb_data mb) \<le> unat j" "unat j < unat i" for j
    proof -
      from that inv have "\<not> mem_present mb j"
        by (simp add: mem_present_def mem_inv_def)
      moreover from that have "j \<noteq> i" by auto
      ultimately show ?thesis
        by (simp add: mem_read_ok_iff [OF W(2)] W(3))
    qed
    moreover have "mem_read_ok mb' i"
      by (simp add: mem_read_ok_iff [OF W(2)] W(3))
    ultimately show ?thesis
      using W(1) W(4) g by (auto simp: max_def)
  qed
  from rd wr show ?thesis by blast
qed

theorem memory_read_iff_written_witness:
  "\<exists>mb mb'. mem_run MemoryBackend_new [MemWrite 0 [7]] = Some mb \<and>
     mem_write_node mb 2 [9] = Some (True, mb') \<and> length (mb_data mb) \<le> unat (2 :: VectorID) \<and>
     \<not> mem_read_ok mb 2 \<and> length (mb_data mb') = 3 \<and> mem_read_ok mb' 2 \<and> \<not> mem_read_ok mb' 1"
proof -
  define mb where "mb = \<lparr>mb_data = [[7]], mb_present = [True],
     mb_stats = IOStats_init\<lparr>num_writes := 1, bytes_written := 4\<rparr>\<rparr>"
  define mb' where "mb' = \<lparr>mb_data = [[7], [], [9]], mb_present = [True, False, True],
     mb_stats = IOStats_init\<lparr>num_writes := 2, bytes_written := 8\<rparr>\<rparr>"
  have r: "mem_run MemoryBackend_new [MemWrite 0 [7]] = Some mb"
    unfolding mb_def by code_simp
  have w: "mem_write_node mb 2 [9] = Some (True, mb')"
    unfolding mb_def mb'_def by code_simp
  have g: "length (mb_data mb) \<le> unat (2 :: VectorID)"
    by (simp add: mb_def)
  have "\<not> written [MemWrite 0 [7]] 2"
    by (simp add: written_def)
  moreover have "length (mb_data mb) \<le> unat (1 :: VectorID) \<and> unat (1 :: VectorID) < unat (2 :: VectorID)"
    by (simp add: mb_def)
  ultimately show ?thesis
    using memory_read_iff_written [OF r, of 2] r w g by fastforce
qed

section \<open>Properties of the storage backends\<close>

lemma file_read_node_failed:
  "file_read_node fb fs i out = Some (False, out', fb') \<Longrightarrow> fb' = fb"
  by (auto simp: file_read_node_def Let_def split: if_splits option.splits)

lemma mem_read_node_failed:
  "mem_read_node mb i out = Some (False, out', mb') \<Longrightarrow> mb' = mb \<and> out' = out"
  by (auto simp: mem_read_node_def Let_def split: if_splits)

lemma tiered_read_node_failed:
  assumes "tiered_read_node ops us t i out = Some (False, out', t')"
  shows "\<exists>b b1. backing t = None \<and> t' = t \<or>
          backing t = Some b \<and> op_read ops b i out = Some (False, out', b1) \<and>
          t' = t\<lparr>backing := Some b1\<rparr>"
  using assms
  by (auto simp: tiered_read_node_def Let_def split: option.splits if_splits)

text \<open>
  C9. A file-backend read that cannot open the file, cannot seek to the slot or cannot
  read the whole slot returns failure, and any failed file-backend read leaves the backend
  object, hence its IOStats, as it was. A tiered read that misses the cache and whose
  backing read fails (or that has no backing store) returns failure, and a failed tiered
  read leaves the IOStats, the cache, the policy, the hit and miss counters and the device
  model unchanged; over a file or in-memory backing store the backing store's own state is
  unchanged too.
\<close>

theorem failed_read_leaves_stats:
  "(fb_dim fb \<noteq> 0 \<and> files fs (fb_path fb) = None \<longrightarrow>
      file_read_node fb fs i out = Some (False, out, fb)) \<and>
   (fb_dim fb \<noteq> 0 \<and> files fs (fb_path fb) = Some content \<and>
      slot_offset i (fb_dim fb) = Some off \<and> off < 0 \<longrightarrow>
      file_read_node fb fs i out = Some (False, out, fb)) \<and>
   (fb_dim fb \<noteq> 0 \<and> files fs (fb_path fb) = Some content \<and>
      slot_offset i (fb_dim fb) = Some off \<and> 0 \<le> off \<and> unat (fb_dim fb) < 2 ^ 61 \<and>
      length content < nat off + unat (fb_dim fb * 4) \<longrightarrow>
      (\<exists>out'. file_read_node fb fs i out = Some (False, out', fb))) \<and>
   (file_read_node fb fs i out = Some (False, out', fb') \<longrightarrow> fb_stats fb' = fb_stats fb) \<and>
   (map_of (cache t) i = None \<and> backing t = Some b \<and> op_read ops b i out = Some (False, out1, b1) \<longrightarrow>
      tiered_read_node ops us t i out = Some (False, out1, t\<lparr>backing := Some b1\<rparr>)) \<and>
   (tiered_read_node ops us t i out = Some (False, out2, t') \<longrightarrow>
      stats t' = stats t \<and> cache t' = cache t \<and> policy t' = policy t \<and>
      cache_hits t' = cache_hits t \<and> cache_misses t' = cache_misses t \<and> ssd_sim t' = ssd_sim t) \<and>
   (tiered_read_node file_ops us tf i out = Some (False, out3, tf') \<longrightarrow> tf' = tf) \<and>
   (tiered_read_node memory_ops us tm i out = Some (False, out4, tm') \<longrightarrow> tm' = tm)"
proof -
  have open_fails: "file_read_node fb fs i out = Some (False, out, fb)"
    if "fb_dim fb \<noteq> 0" "files fs (fb_path fb) = None"
    using that by (simp add: file_read_node_def)
  have seek_fails: "file_read_node fb fs i out = Some (False, out, fb)"
    if "fb_dim fb \<noteq> 0" "files fs (fb_path fb) = Some content"
       "slot_offset i (fb_dim fb) = Some off" "off < 0"
    using that by (simp add: file_read_node_def)
  have read_fails: "\<exists>out'. file_read_node fb fs i out = Some (False, out', fb)"
    if "fb_dim fb \<noteq> 0" "files fs (fb_path fb) = Some content"
       "slot_offset i (fb_dim fb) = Some off" "0 \<le> off" "unat (fb_dim fb) < 2 ^ 61"
       "length content < nat off + unat (fb_dim fb * 4)"
  proof -
    from that(5) have "unat (fb_dim fb) * unat (4 :: size_t) < 2 ^ LENGTH(64)"
      by simp
    then have "unat (fb_dim fb * 4) = unat (fb_dim fb) * 4"
      by (simp add: unat_mult_lem [THEN iffD1])
    moreover from that(1) have "0 < unat (fb_dim fb)"
      by (simp add: unat_gt_0)
    ultimately show ?thesis
      using that by (auto simp: file_read_node_def Let_def)
  qed
  have file_stats: "fb_stats fb' = fb_stats fb"
    if "file_read_node fb fs i out = Some (False, out', fb')"
    using file_read_node_failed [OF that] by simp
  have tiered_fails: "tiered_read_node ops us t i out = Some (False, out1, t\<lparr>backing := Some b1\<rparr>)"
    if "map_of (cache t) i = None" "backing t = Some b" "op_read ops b i out = Some (False, out1, b1)"
    using that by (simp add: tiered_read_node_def)
  have tiered_same: "stats t' = stats t \<and> cache t' = cache t \<and> policy t' = policy t \<and>
      cache_hits t' = cache_hits t \<and> cache_misses t' = cache_misses t \<and> ssd_sim t' = ssd_sim t"
    if "tiered_read_node ops us t i out = Some (False, out2, t')"
    using tiered_read_node_failed [OF that] by auto
  have over_file: "tf' = tf" if "tiered_read_node file_ops us tf i out = Some (False, out3, tf')"
  proof -
    from tiered_read_node_failed [OF that] show ?thesis
    proof (elim exE disjE conjE)
      fix b b1
      assume b: "backing tf = Some b" and r: "op_read file_ops b i out = Some (False, out3, b1)"
        and t: "tf' = tf\<lparr>backing := Some b1\<rparr>"
      obtain fb0 fs0 where b0: "b = (fb0, fs0)" by (cases b)
      from r b0 obtain fb1 where "file_read_node fb0 fs0 i out = Some (False, out3, fb1)"
        and "b1 = (fb1, fs0)"
        by (auto simp: file_ops_def)
      with file_read_node_failed [of fb0 fs0 i out out3 fb1] b0 have "b1 = b" by simp
      with b t show ?thesis by simp
    qed simp
  qed
  have over_memory: "tm' = tm" if "tiered_read_node memory_ops us tm i out = Some (False, out4, tm')"
  proof -
    from tiered_read_node_failed [OF that] show ?thesis
    proof (elim exE disjE conjE)
      fix b b1
      assume b: "backing tm = Some b" and r: "op_read memory_ops b i out = Some (False, out4, b1)"
        and t: "tm' = tm\<lparr>backing := Some b1\<rparr>"
      from r mem_read_node_failed [of b i out out4 b1] have "b1 = b"
        by (simp add: memory_ops_def)
      with b t show ?thesis by simp
    qed simp
  qed
  from open_fails seek_fails read_fails file_stats tiered_fails tiered_same over_file over_memory
  show ?thesis by blast
qed


theorem failed_read_leaves_stats_witness:
  "file_read_node \<lparr>fb_path = ''v.bin'', fb_dim = 4, fb_stats = IOStats_init\<rparr>
      \<lparr>files = Map.empty, creatable = (\<lambda>p. True), disk_limit = 1000\<rparr> 0 []
     = Some (False, [], \<lparr>fb_path = ''v.bin'', fb_dim = 4, fb_stats = IOStats_init\<rparr>) \<and>
   file_read_node \<lparr>fb_path = ''v.bin'', fb_dim = 4, fb_stats = IOStats_init\<rparr>
      \<lparr>files = [''v.bin'' \<mapsto> [1, 2, 3, 4, 5, 6, 7, 8]], creatable = (\<lambda>p. True), disk_limit = 1000\<rparr>
      (- 1) []
     = Some (False, [], \<lparr>fb_path = ''v.bin'', fb_dim = 4, fb_stats = IOStats_init\<rparr>) \<and>
   (\<exists>out'. file_read_node \<lparr>fb_path = ''v.bin'', fb_dim = 4, fb_stats = IOStats_init\<rparr>
      \<lparr>files = [''v.bin'' \<mapsto> [1, 2, 3, 4, 5, 6, 7, 8]], creatable = (\<lambda>p. True), disk_limit = 1000\<rparr>
      0 []
     = Some (False, out', \<lparr>fb_path = ''v.bin'', fb_dim = 4, fb_stats = IOStats_init\<rparr>)) \<and>
   tiered_read_node file_ops 0
      (TieredBackend_new (Some (\<lparr>fb_path = ''v.bin'', fb_dim = 4, fb_stats = IOStats_init\<rparr>,
         \<lparr>files = Map.empty, creatable = (\<lambda>p. True), disk_limit = 1000\<rparr>)) 2 ''lru'') 7 []
     = Some (False, [],
         TieredBackend_new (Some (\<lparr>fb_path = ''v.bin'', fb_dim = 4, fb_stats = IOStats_init\<rparr>,
           \<lparr>files = Map.empty, creatable = (\<lambda>p. True), disk_limit = 1000\<rparr>)) 2 ''lru'')"
proof (intro conjI)
  show "file_read_node \<lparr>fb_path = ''v.bin'', fb_dim = 4, fb_stats = IOStats_init\<rparr>
      \<lparr>files = Map.empty, creatable = (\<lambda>p. True), disk_limit = 1000\<rparr> 0 []
     = Some (False, [], \<lparr>fb_path = ''v.bin'', fb_dim = 4, fb_stats = IOStats_init\<rparr>)"
    by (rule failed_read_leaves_stats [THEN conjunct1, THEN mp]) simp
  have off: "slot_offset (- 1) 4 = Some (- 16)" "slot_offset 0 4 = Some 0"
    by (simp_all add: slot_offset_def)
  show "file_read_node \<lparr>fb_path = ''v.bin'', fb_dim = 4, fb_stats = IOStats_init\<rparr>
      \<lparr>files = [''v.bin'' \<mapsto> [1, 2, 3, 4, 5, 6, 7, 8]], creatable = (\<lambda>p. True), disk_limit = 1000\<rparr>
      (- 1) []
     = Some (False, [], \<lparr>fb_path = ''v.bin'', fb_dim = 4, fb_stats = IOStats_init\<rparr>)"
    by (rule failed_read_leaves_stats [where content = "[1, 2, 3, 4, 5, 6, 7, 8]" and off = "- 16",
          THEN conjunct2, THEN conjunct1, THEN mp])
       (simp add: off)
  show "\<exists>out'. file_read_node \<lparr>fb_path = ''v.bin'', fb_dim = 4, fb_stats = IOStats_init\<rparr>
      \<lparr>files = [''v.bin'' \<mapsto> [1, 2, 3, 4, 5, 6, 7, 8]], creatable = (\<lambda>p. True), disk_limit = 1000\<rparr>
      0 []
     = Some (False, out', \<lparr>fb_path = ''v.bin'', fb_dim = 4, fb_stats = IOStats_init\<rparr>)"
    by (rule failed_read_leaves_stats [where content = "[1, 2, 3, 4, 5, 6, 7, 8]" and off = 0,
          THEN conjunct2, THEN conjunct2, THEN conjunct1, THEN mp])
       (simp add: off)
  have "tiered_read_node file_ops 0
      (TieredBackend_new (Some (\<lparr>fb_path = ''v.bin'', fb_dim = 4, fb_stats = IOStats_init\<rparr>,
         \<lparr>files = Map.empty, creatable = (\<lambda>p. True), disk_limit = 1000\<rparr>)) 2 ''lru'') 7 []
     = Some (False, [],
         (TieredBackend_new (Some (\<lparr>fb_path = ''v.bin'', fb_dim = 4, fb_stats = IOStats_init\<rparr>,
           \<lparr>files = Map.empty, creatable = (\<lambda>p. True), disk_limit = 1000\<rparr>)) 2 ''lru'')
         \<lparr>backing := Some (\<lparr>fb_path = ''v.bin'', fb_dim = 4, fb_stats = IOStats_init\<rparr>,
           \<lparr>files = Map.empty, creatable = (\<lambda>p. True), disk_limit = 1000\<rparr>)\<rparr>)"
    by (rule failed_read_leaves_stats [where b = "(\<lparr>fb_path = ''v.bin'', fb_dim = 4,
            fb_stats = IOStats_init\<rparr>,
            \<lparr>files = Map.empty, creatable = (\<lambda>p. True), disk_limit = 1000\<rparr>)",
          THEN conjunct2, THEN conjunct2, THEN conjunct2, THEN conjunct2, THEN conjunct1, THEN mp])
       (simp add: TieredBackend_new_def file_ops_def file_read_node_def)
  then show "tiered_read_node file_ops 0
      (TieredBackend_new (Some (\<lparr>fb_path = ''v.bin'', fb_dim = 4, fb_stats = IOStats_init\<rparr>,
         \<lparr>files = Map.empty, creatable = (\<lambda>p. True), disk_limit = 1000\<rparr>)) 2 ''lru'') 7 []
     = Some (False, [],
         TieredBackend_new (Some (\<lparr>fb_path = ''v.bin'', fb_dim = 4, fb_stats = IOStats_init\<rparr>,
           \<lparr>files = Map.empty, creatable = (\<lambda>p. True), disk_limit = 1000\<rparr>)) 2 ''lru'')"
    by (simp add: TieredBackend_new_def)
qed

lemma of_nat_length_neq:
  "length (data :: 'a list) < 2 ^ 64 \<Longrightarrow> length data \<noteq> unat (d :: size_t) \<Longrightarrow> of_nat (length data) \<noteq> d"
  by (auto simp: unat_of_nat take_bit_nat_eq_self)

text \<open>
  C2, as the code has it. A file backend of non-zero dimension \<open>d\<close> refuses a write whose
  data has another length and changes neither its stats nor the file; so does a tiered
  backend over it, whose stats and cache stay as they were. A file backend constructed
  with dimension 0 takes the length of the data as its dimension. The in-memory backend
  has no dimension: a write of any length succeeds and is stored.
\<close>

theorem write_dimension_check:
  "(fb_dim fb \<noteq> 0 \<and> length data < 2 ^ 64 \<and> length data \<noteq> unat (fb_dim fb) \<longrightarrow>
      file_write_node fb fs i data = Some (False, fb, fs)) \<and>
   (backing t = Some (fb, fs) \<and> fb_dim fb \<noteq> 0 \<and> length data < 2 ^ 64 \<and>
      length data \<noteq> unat (fb_dim fb) \<longrightarrow>
      tiered_write_node file_ops us t i data = Some (False, t)) \<and>
   (fb_dim fb = 0 \<and> file_write_node fb fs i data = Some (ok, fb', fs') \<longrightarrow>
      fb_dim fb' = of_nat (length data)) \<and>
   (mem_write_node mb i data = Some (ok', mb') \<longrightarrow>
      ok' \<and> mb_data mb' ! unat i = data \<and> mem_present mb' i)"
proof -
  have file_refuses: "file_write_node fb fs i data = Some (False, fb, fs)"
    if "fb_dim fb \<noteq> 0" "length data < 2 ^ 64" "length data \<noteq> unat (fb_dim fb)"
    using that of_nat_length_neq [of data "fb_dim fb"]
    by (simp add: file_write_node_def)
  have tiered_refuses: "tiered_write_node file_ops us t i data = Some (False, t)"
    if "backing t = Some (fb, fs)" "fb_dim fb \<noteq> 0" "length data < 2 ^ 64"
       "length data \<noteq> unat (fb_dim fb)"
    using that file_refuses by (simp add: tiered_write_node_def file_ops_def)
  have adopts: "fb_dim fb' = of_nat (length data)"
    if "fb_dim fb = 0" "file_write_node fb fs i data = Some (ok, fb', fs')"
    using that
    by (auto simp: file_write_node_def Let_def split: if_splits option.splits)
  have memory_accepts: "ok' \<and> mb_data mb' ! unat i = data \<and> mem_present mb' i"
    if "mem_write_node mb i data = Some (ok', mb')"
    using that
    by (auto simp: mem_write_node_def Let_def mem_present_def split: if_splits)
  from file_refuses tiered_refuses adopts memory_accepts show ?thesis
    by blast
qed

theorem write_dimension_check_witness:
  "file_write_node \<lparr>fb_path = ''v.bin'', fb_dim = 4, fb_stats = IOStats_init\<rparr>
      \<lparr>files = Map.empty, creatable = (\<lambda>p. True), disk_limit = 1000\<rparr> 0 [7]
     = Some (False, \<lparr>fb_path = ''v.bin'', fb_dim = 4, fb_stats = IOStats_init\<rparr>,
         \<lparr>files = Map.empty, creatable = (\<lambda>p. True), disk_limit = 1000\<rparr>) \<and>
   mem_present (snd (the (mem_write_node MemoryBackend_new 1 [7]))) 1"
proof
  show "file_write_node \<lparr>fb_path = ''v.bin'', fb_dim = 4, fb_stats = IOStats_init\<rparr>
      \<lparr>files = Map.empty, creatable = (\<lambda>p. True), disk_limit = 1000\<rparr> 0 [7]
     = Some (False, \<lparr>fb_path = ''v.bin'', fb_dim = 4, fb_stats = IOStats_init\<rparr>,
         \<lparr>files = Map.empty, creatable = (\<lambda>p. True), disk_limit = 1000\<rparr>)"
    by (rule write_dimension_check [THEN conjunct1, THEN mp]) simp
  have "mem_write_node MemoryBackend_new 1 [7] \<noteq> None"
    by code_simp
  then obtain ok mb' where w: "mem_write_node MemoryBackend_new 1 [7] = Some (ok, mb')"
    by auto
  from write_dimension_check [THEN conjunct2, THEN conjunct2, THEN conjunct2, THEN mp, OF w]
  show "mem_present (snd (the (mem_write_node MemoryBackend_new 1 [7]))) 1"
    by (simp add: w)
qed

text \<open>
  The claim C2 as stated fails on the in-memory backend: after a vector of dimension 4 was
  written, a write of a vector of length 1 succeeds and the vector is stored.
\<close>

theorem memory_write_ignores_dimension:
  "mem_run MemoryBackend_new [MemWrite 0 (scenario_vector 0), MemWrite 1 [small_float 7]]
     = Some \<lparr>mb_data = [[0, 0x3F800000, 0x40000000, 0x40400000], [0x40E00000]],
             mb_present = [True, True],
             mb_stats = \<lparr>num_reads = 0, num_writes = 2, bytes_read = 0, bytes_written = 20,
               total_read_latency_us = 0, total_write_latency_us = 0\<rparr>\<rparr>"
  by code_simp

section \<open>Properties of the device model\<close>

lemma unat_parallel:
  assumes "unat (num_channels c) * unat (queue_depth_per_channel c) < 2 ^ 64"
  shows "unat (parallel c) = max 1 (unat (num_channels c) * unat (queue_depth_per_channel c))"
proof -
  from assms have m: "unat (num_channels c * queue_depth_per_channel c)
      = unat (num_channels c) * unat (queue_depth_per_channel c)"
    by (simp add: unat_mult_lem [THEN iffD1])
  show ?thesis
  proof (cases "num_channels c * queue_depth_per_channel c = 0")
    case True
    with m show ?thesis by (simp add: parallel_def)
  next
    case False
    then have "0 < unat (num_channels c * queue_depth_per_channel c)"
      by (simp add: unat_gt_0)
    with False m show ?thesis by (simp add: parallel_def Let_def max_def)
  qed
qed

text \<open>
  C6, as the code has it. Provided the product of channels and queue depth fits in
  \<open>size_t\<close>, a recorded read of \<open>B\<close> bytes adds
  \<open>(base + B / bandwidth_bytes_per_us) / max(1, channels * queue_depth)\<close> when the configured
  bandwidth is positive, where it is the spec's formula, and \<open>base / max(1, channels * queue_depth)\<close>,
  without a transfer term, when it is not. \<open>device_time_us\<close> of a tiered backend with no
  device model is 0.
\<close>

theorem record_read_device_time:
  assumes "unat (num_channels (sim_config sim)) * unat (queue_depth_per_channel (sim_config sim)) < 2 ^ 64"
  shows "sim_total_time_us (sim_record_read sim B) - sim_total_time_us sim =
      (base_read_latency_us (sim_config sim) +
        (if internal_read_bandwidth_GBps (sim_config sim) > 0
         then real (unat B) / (internal_read_bandwidth_GBps (sim_config sim) * 1000) else 0))
      / real (max 1 (unat (num_channels (sim_config sim)) * unat (queue_depth_per_channel (sim_config sim)))) \<and>
    (internal_read_bandwidth_GBps (sim_config sim) > 0 \<longrightarrow>
      spec_read_time (sim_config sim) B =
        Some (sim_total_time_us (sim_record_read sim B) - sim_total_time_us sim)) \<and>
    (ssd_sim t = None \<longrightarrow> device_time_us t = 0)"
proof -
  from unat_parallel [OF assms]
  have "real (unat (parallel (sim_config sim))) =
      real (max 1 (unat (num_channels (sim_config sim)) * unat (queue_depth_per_channel (sim_config sim))))"
    by simp
  then show ?thesis
    by (simp add: sim_record_read_def Let_def bw_bytes_per_us_def spec_read_time_def
          device_time_us_def mult.commute)
qed

theorem record_read_device_time_witness:
  "sim_total_time_us (sim_record_read (SsdSimulator_new
      \<lparr>num_channels = 4, queue_depth_per_channel = 64, base_read_latency_us = 80,
        internal_read_bandwidth_GBps = 3\<rparr>) 6000) = 41 / 128 \<and>
   device_time_us (TieredBackend_new (Some MemoryBackend_new) 2 ''lru'') = 0"
  using record_read_device_time [of "SsdSimulator_new
      \<lparr>num_channels = 4, queue_depth_per_channel = 64, base_read_latency_us = 80,
        internal_read_bandwidth_GBps = 3\<rparr>" 6000 "TieredBackend_new (Some MemoryBackend_new) 2 ''lru''"]
  by (simp add: SsdSimulator_new_def TieredBackend_new_def)

text \<open>
  The claim C6 as stated fails where the bandwidth is not configured (0, as in a
  default-constructed \<open>SsdDeviceConfig\<close>): the spec's quotient by the bandwidth has no
  value, while the code adds the base latency over the parallelism, \<open>80 / 256\<close>.
\<close>

theorem record_read_zero_bandwidth:
  "sim_total_time_us (sim_record_read (SsdSimulator_new
      \<lparr>num_channels = 4, queue_depth_per_channel = 64, base_read_latency_us = 80,
        internal_read_bandwidth_GBps = 0\<rparr>) 4096) = 5 / 16 \<and>
   spec_read_time \<lparr>num_channels = 4, queue_depth_per_channel = 64, base_read_latency_us = 80,
        internal_read_bandwidth_GBps = 0\<rparr> 4096 = None"
  by (simp add: sim_record_read_def SsdSimulator_new_def bw_bytes_per_us_def parallel_def
        spec_read_time_def Let_def)

section \<open>Scenario A: the cache under pressure\<close>

lemma scenario_backing_eq:
  "scenario_backing = Some \<lparr>mb_data = [scenario_vector 0, scenario_vector 1, scenario_vector 2,
       scenario_vector 3],
     mb_present = [True, True, True, True],
     mb_stats = IOStats_init\<lparr>num_writes := 4, bytes_written := 64\<rparr>\<rparr>"
  by code_simp

text \<open>
  C1. Over the backing store of scenario A, with capacity 2 and LRU, whatever the timer
  reads: the reads 0, 1, 2, 3 all succeed as misses and leave \<open>{2, 3}\<close> resident; the read
  of 0 is a miss that evicts 2 and the read of 1 a miss that evicts 3; eight further reads
  0, 1, 0, 1, ... are all hits, ending with 8 hits, 6 misses and \<open>{0, 1}\<close> resident.
\<close>

theorem scenario_A_cache_under_pressure:
  "\<exists>t1 t2 t3 t4.
     tiered_reads memory_ops scenario_tier [(0, u 0), (1, u 1), (2, u 2), (3, u 3)]
       = Some ([True, True, True, True], t1) \<and>
     cache_misses t1 = 4 \<and> cache_hits t1 = 0 \<and> resident t1 = {2, 3} \<and>
     tiered_reads memory_ops t1 [(0, u 4)] = Some ([True], t2) \<and>
     cache_misses t2 = 5 \<and> cache_hits t2 = 0 \<and> resident t2 = {3, 0} \<and>
     tiered_reads memory_ops t2 [(1, u 5)] = Some ([True], t3) \<and>
     cache_misses t3 = 6 \<and> cache_hits t3 = 0 \<and> resident t3 = {0, 1} \<and>
     tiered_reads memory_ops t3
        [(0, u 6), (1, u 7), (0, u 8), (1, u 9), (0, u 10), (1, u 11), (0, u 12), (1, u 13)]
       = Some ([True, True, True, True, True, True, True, True], t4) \<and>
     cache_misses t4 = 6 \<and> cache_hits t4 = 8 \<and> resident t4 = {0, 1}"
  by (simp add: scenario_tier_def scenario_backing_eq TieredBackend_new_def tiered_read_node_def
        memory_ops_def mem_read_node_def insert_into_cache_def lru_on_insert_def
        lru_record_access_def LRUCachePolicy_new_def Let_def resident_def payload_bytes_def
        IOStats_init_def scenario_vector_def insert_commute)


section \<open>Properties of the block model: placement\<close>

lemma unat_num_blocks_of:
  assumes "K \<noteq> 0" "unat n + unat K \<le> 2 ^ 64"
  shows "unat (num_blocks_of n K) = (unat n + unat K - 1) div unat K"
proof -
  from assms(1) have K1: "1 \<le> unat K"
    by (simp add: unat_gt_0 Suc_leI)
  have "unat (n + K - 1) = (unat n + unat K - 1) mod 2 ^ 64"
  proof -
    have "n + K - 1 = of_nat (unat n + unat K - 1)"
      using K1 by (simp add: of_nat_diff)
    then show ?thesis
      by (simp add: unat_of_nat del: of_nat_diff)
  qed
  also from assms(2) K1 have "\<dots> = unat n + unat K - 1"
    by simp
  finally show ?thesis
    by (simp add: num_blocks_of_def unat_div)
qed

lemma those_map_Some:
  "(\<And>x. x \<in> set xs \<Longrightarrow> f x = Some (g x)) \<Longrightarrow> those (map f xs) = Some (map g xs)"
  by (induction xs) simp_all

lemma those_map_defined:
  assumes "\<And>x. x \<in> set xs \<Longrightarrow> f x \<noteq> None"
  shows "\<exists>ys. those (map f xs) = Some ys"
proof -
  from assms have "\<And>x. x \<in> set xs \<Longrightarrow> f x = Some (the (f x))"
    by fastforce
  from those_map_Some [of xs f "\<lambda>x. the (f x)", OF this] show ?thesis
    by blast
qed

lemma hash_home_block_eq:
  assumes "unat b * unat K < unat n" "unat n + unat K \<le> 2 ^ 64"
  shows "hash_home_block n K b = Some (map of_nat [unat b * unat K ..< min (unat b * unat K + unat K) (unat n)])"
proof -
  from assms have lt: "unat b * unat K < 2 ^ 64" "unat b * unat K + unat K < 2 ^ 64"
    using unsigned_less [of n, where 'a = nat] by simp_all
  from lt(1) have s: "unat (b * K) = unat b * unat K"
    by (simp add: unat_mult_lem [THEN iffD1])
  from lt(2) s have e: "unat (b * K + K) = unat b * unat K + unat K"
    by (simp add: unat_add_lem [THEN iffD1])
  have m: "unat (min (b * K + K) n) = min (unat b * unat K + unat K) (unat n)"
    using e by (simp add: min_def word_le_nat_alt)
  have "\<not> min (b * K + K) n < b * K"
    using m s assms(1) by (simp add: word_less_nat_alt)
  then show ?thesis
    by (simp add: hash_home_block_def Let_def s m)
qed

lemma ceil_div_block:
  fixes N K b :: nat
  assumes "0 < K" "b < (N + K - 1) div K"
  shows "b * K < N"
proof -
  have "(N + K - 1) div K * K \<le> N + K - 1"
    by simp
  moreover from assms(2) have "(b + 1) * K \<le> (N + K - 1) div K * K"
    by (intro mult_le_mono1) simp
  moreover have "(b + 1) * K = b * K + K"
    by simp
  ultimately have "b * K + K \<le> N + K - 1"
    by linarith
  with assms(1) show ?thesis by linarith
qed

lemma ceil_div_cover:
  fixes N K v :: nat
  assumes "0 < K" "v < N"
  shows "v div K < (N + K - 1) div K"
proof -
  from assms have "v div K \<le> (N - 1) div K"
    by (intro div_le_mono) simp
  moreover have "(m + K) div K = m div K + 1" for m
    using assms(1) by simp
  from this [of "N - 1"] have "(N - 1 + K) div K = (N - 1) div K + 1" .
  moreover from assms have "N - 1 + K = N + K - 1"
    by simp
  ultimately have "v div K < (N - 1 + K) div K" "N - 1 + K = N + K - 1"
    by simp_all
  then show ?thesis by (simp only:)
qed

lemma hash_home_assignment_eq:
  assumes "K \<noteq> 0" "unat n + unat K \<le> 2 ^ 64"
  shows "hash_home_assignment n K (num_blocks_of n K) =
     Some (map (block_range (unat n) (unat K)) [0..<(unat n + unat K - 1) div unat K])"
proof -
  let ?nb = "(unat n + unat K - 1) div unat K"
  from assms(1) have K0: "0 < unat K" by (simp add: unat_gt_0)
  have "hash_home_block n K (of_nat b) = Some (block_range (unat n) (unat K) b)"
    if "b \<in> set [0..<?nb]" for b
  proof -
    from that have b: "b < ?nb" by simp
    from ceil_div_block [OF K0 b] have lt: "b * unat K < unat n" .
    moreover from K0 have "b \<le> b * unat K"
      by simp
    moreover have "unat n < 2 ^ 64"
      using unsigned_less [of n, where 'a = nat] by simp
    ultimately have "b < 2 ^ 64"
      by linarith
    then have ub: "unat (of_nat b :: size_t) = b"
      by (simp add: unat_of_nat take_bit_nat_eq_self)
    from hash_home_block_eq [of "of_nat b" K n] lt assms(2) ub show ?thesis
      by (simp add: block_range_def add.commute)
  qed
  from those_map_Some [of "[0..<?nb]" "\<lambda>b. hash_home_block n K (of_nat b)", OF this]
  show ?thesis
    by (simp add: hash_home_assignment_def unat_num_blocks_of [OF assms])
qed

lemma l2_distance_squared_defined:
  "dm \<le> length a \<Longrightarrow> dm \<le> length b \<Longrightarrow> \<exists>d. l2_distance_squared P a b dm = Some d"
  by (simp add: l2_distance_squared_def Let_def)

lemma block_centroid_fold_defined:
  assumes "\<And>vid. vid \<in> set ids \<Longrightarrow> unat vid < length ds"
  shows "\<exists>r. foldl (\<lambda>st vid. case st of
                    None \<Rightarrow> None
                  | Some (centroid, count) \<Rightarrow>
                     (case get_vector_data ds (unat vid) of
                        None \<Rightarrow> None
                      | Some base_vec \<Rightarrow>
                          if length base_vec \<noteq> dm then Some (centroid, count)
                          else Some (map (\<lambda>d. f_add P (centroid ! d) (base_vec ! d)) [0..<dm],
                                     count + 1)))
            (Some (st0 :: VectorData \<times> size_t)) ids = Some r"
  using assms
proof (induction ids arbitrary: st0)
  case Nil
  then show ?case by simp
next
  case (Cons vid ids)
  obtain c n where st0: "st0 = (c, n)" by (cases st0)
  from Cons.prems have "unat vid < length ds" by simp
  then show ?case
    using Cons.IH Cons.prems by (simp add: st0 get_vector_data_def)
qed

lemma block_centroid_defined:
  assumes "\<And>vid. vid \<in> set ids \<Longrightarrow> unat vid < length ds"
  shows "\<exists>c. block_centroid P ds dm ids = Some c"
proof -
  from block_centroid_fold_defined [OF assms, of ids dm P "(replicate dm f_zero, 0)"]
  obtain r where "foldl (\<lambda>st vid. case st of
                    None \<Rightarrow> None
                  | Some (centroid, count) \<Rightarrow>
                     (case get_vector_data ds (unat vid) of
                        None \<Rightarrow> None
                      | Some base_vec \<Rightarrow>
                          if length base_vec \<noteq> dm then Some (centroid, count)
                          else Some (map (\<lambda>d. f_add P (centroid ! d) (base_vec ! d)) [0..<dm],
                                     count + 1)))
            (Some (replicate dm f_zero, 0 :: size_t)) ids = Some r"
    by blast
  then show ?thesis
    by (cases r) (simp add: block_centroid_def Let_def)
qed

lemma block_portals_defined:
  "\<exists>r. block_portals P centroids dm pd nb b = Some r"
proof (cases "length (centroids ! b) = dm")
  case False
  then show ?thesis by (simp add: block_portals_def)
next
  case True
  have "\<exists>ys. those (map (\<lambda>j. map_option (\<lambda>d. (d, of_nat j :: size_t))
                               (l2_distance_squared P (centroids ! b) (centroids ! j) dm))
                      (filter (\<lambda>j. j \<noteq> b \<and> length (centroids ! j) = dm) [0..<unat nb])) = Some ys"
  proof (rule those_map_defined)
    fix j
    assume "j \<in> set (filter (\<lambda>j. j \<noteq> b \<and> length (centroids ! j) = dm) [0..<unat nb])"
    then have "length (centroids ! j) = dm" by simp
    with True l2_distance_squared_defined [of dm "centroids ! b" "centroids ! j" P]
    show "map_option (\<lambda>d. (d, of_nat j :: size_t))
            (l2_distance_squared P (centroids ! b) (centroids ! j) dm) \<noteq> None"
      by auto
  qed
  then show ?thesis
    using True by (auto simp: block_portals_def Let_def)
qed

lemma set_block_range:
  assumes "N \<le> 2 ^ 64"
  shows "v \<in> set (block_range N K b) \<longleftrightarrow> b * K \<le> unat v \<and> unat v < min ((b + 1) * K) N"
proof
  assume "v \<in> set (block_range N K b)"
  then obtain i where i: "b * K \<le> i" "i < min ((b + 1) * K) N" and v: "v = of_nat i"
    by (auto simp: block_range_def)
  from i(2) assms have "i < 2 ^ 64" by simp
  then have "unat (of_nat i :: VectorID) = i"
    by (simp add: unat_of_nat take_bit_nat_eq_self)
  with i v show "b * K \<le> unat v \<and> unat v < min ((b + 1) * K) N" by simp
next
  assume "b * K \<le> unat v \<and> unat v < min ((b + 1) * K) N"
  then have "unat v \<in> set [b * K ..< min ((b + 1) * K) N]" by simp
  moreover have "v = of_nat (unat v)" by simp
  ultimately show "v \<in> set (block_range N K b)"
    unfolding block_range_def set_map by (rule image_eqI [rotated])
qed

lemma block_of_unique:
  fixes K b u :: nat
  assumes "0 < K"
  shows "b * K \<le> u \<and> u < (b + 1) * K \<longleftrightarrow> b = u div K"
proof
  assume a: "b * K \<le> u \<and> u < (b + 1) * K"
  then have "u div K = b"
    by (intro div_nat_eqI) (simp_all add: mult.commute)
  then show "b = u div K" by simp
next
  assume "b = u div K"
  with assms show "b * K \<le> u \<and> u < (b + 1) * K"
    by (simp add: dividend_less_div_times)
qed

lemma unat_effective_n_le:
  assumes "length ds < 2 ^ 64"
  shows "unat (effective_n cfg ds) \<le> length ds"
proof -
  from assms have "unat (of_nat (length ds) :: size_t) = length ds"
    by (simp add: unat_of_nat take_bit_nat_eq_self)
  then show ?thesis
    by (auto simp: effective_n_def word_less_nat_alt)
qed

lemma effective_K_nonzero: "effective_K cfg \<noteq> 0"
  by (simp add: effective_K_def)

lemma build_hash_home:
  assumes mode: "placement_mode cfg \<noteq> ''locality_aware''"
    and size: "length ds < 2 ^ 64"
    and fits: "unat (effective_n cfg ds) + unat (effective_K cfg) \<le> 2 ^ 64"
    and nz: "effective_n cfg ds \<noteq> 0" "graph_dimension cfg ds \<noteq> 0"
  shows "\<exists>m'. build_block_graph_if_needed P (AnnInSsdModel_new cfg ds) = Some m' \<and>
     block_assignment m' = map (block_range (unat (effective_n cfg ds)) (unat (effective_K cfg)))
        [0..<(unat (effective_n cfg ds) + unat (effective_K cfg) - 1) div unat (effective_K cfg)]"
proof -
  let ?n = "effective_n cfg ds" and ?K = "effective_K cfg"
  let ?N = "unat ?n"
  let ?nb = "(?N + unat ?K - 1) div unat ?K"
  let ?asg = "map (block_range ?N (unat ?K)) [0..<?nb]"
  let ?dm = "graph_dimension cfg ds"
  have asg: "hash_home_assignment ?n ?K (num_blocks_of ?n ?K) = Some ?asg"
    by (rule hash_home_assignment_eq [OF effective_K_nonzero fits])
  from fits have N64: "?N \<le> 2 ^ 64" by simp
  have "\<exists>cs. those (map (block_centroid P ds (unat ?dm)) ?asg) = Some cs"
  proof (rule those_map_defined)
    fix ids
    assume "ids \<in> set ?asg"
    then obtain b where ids: "ids = block_range ?N (unat ?K) b" by auto
    have "unat vid < length ds" if "vid \<in> set ids" for vid
      using that unat_effective_n_le [OF size, of cfg]
      by (simp add: ids set_block_range [OF N64])
    from block_centroid_defined [of ids ds P "unat ?dm", OF this]
    show "block_centroid P ds (unat ?dm) ids \<noteq> None" by auto
  qed
  then obtain cs where cs: "those (map (block_centroid P ds (unat ?dm)) ?asg) = Some cs" ..
  have portals: "\<exists>ns. those (map (block_portals P cs (unat ?dm) pd (num_blocks_of ?n ?K))
          [0..<unat (num_blocks_of ?n ?K)]) = Some ns" for pd
    by (rule those_map_defined) (use block_portals_defined in auto)
  from mode nz asg cs portals [of 1] portals [of "portal_degree cfg"] show ?thesis
    by (auto simp: build_block_graph_if_needed_def AnnInSsdModel_new_def Let_def)
qed

text \<open>
  C7. With a placement mode other than \<open>locality_aware\<close> (hash\_home is the default), on
  a fresh model, when \<open>N + K\<close> does not exceed \<open>2^64\<close> and the vectors have a non-zero
  dimension: the build succeeds with \<open>ceil(N / K)\<close> blocks, block \<open>b\<close> is assigned
  exactly the ids \<open>[b * K, min((b + 1) * K, N))\<close> in order, and every id below \<open>N\<close> is in
  the assignment of exactly one block. \<open>N\<close> is the dataset size capped by \<open>num_vectors\<close>,
  \<open>K\<close> is \<open>vectors_per_block\<close>, or 128 when that is 0.
\<close>

theorem hash_home_blocks:
  assumes "placement_mode cfg \<noteq> ''locality_aware''"
    and "length ds < 2 ^ 64"
    and "unat (effective_n cfg ds) + unat (effective_K cfg) \<le> 2 ^ 64"
    and "effective_n cfg ds \<noteq> 0 \<longrightarrow> graph_dimension cfg ds \<noteq> 0"
  shows "\<exists>m'. build_block_graph_if_needed P (AnnInSsdModel_new cfg ds) = Some m' \<and>
     length (block_assignment m') =
       (unat (effective_n cfg ds) + unat (effective_K cfg) - 1) div unat (effective_K cfg) \<and>
     (\<forall>b < length (block_assignment m'). block_assignment m' ! b =
        map of_nat [b * unat (effective_K cfg) ..<
                    min ((b + 1) * unat (effective_K cfg)) (unat (effective_n cfg ds))]) \<and>
     (\<forall>v. unat v < unat (effective_n cfg ds) \<longrightarrow>
        (\<exists>!b. b < length (block_assignment m') \<and> v \<in> set (block_assignment m' ! b)))"
proof (cases "effective_n cfg ds = 0")
  case True
  then show ?thesis
    using effective_K_nonzero [of cfg]
    by (simp add: build_block_graph_if_needed_def AnnInSsdModel_new_def Let_def unat_gt_0)
next
  case False
  let ?N = "unat (effective_n cfg ds)" and ?K = "unat (effective_K cfg)"
  let ?nb = "(?N + ?K - 1) div ?K"
  from effective_K_nonzero [of cfg] have K0: "0 < ?K" by (simp add: unat_gt_0)
  from assms(3) have N64: "?N \<le> 2 ^ 64" by simp
  from build_hash_home [OF assms(1-3) False, of P] assms(4) False
  obtain m' where b: "build_block_graph_if_needed P (AnnInSsdModel_new cfg ds) = Some m'"
    and a: "block_assignment m' = map (block_range ?N ?K) [0..<?nb]"
    by blast
  have uniq: "\<exists>!b. b < ?nb \<and> v \<in> set (block_range ?N ?K b)" if v: "unat v < ?N" for v
  proof (rule ex1I [of _ "unat v div ?K"])
    from ceil_div_cover [OF K0 v] block_of_unique [OF K0, of "unat v div ?K" "unat v"] v
    show "unat v div ?K < ?nb \<and> v \<in> set (block_range ?N ?K (unat v div ?K))"
      by (simp add: set_block_range [OF N64])
  next
    fix b
    assume "b < ?nb \<and> v \<in> set (block_range ?N ?K b)"
    then have "b * ?K \<le> unat v \<and> unat v < (b + 1) * ?K"
      by (simp add: set_block_range [OF N64])
    with block_of_unique [OF K0, of b "unat v"] show "b = unat v div ?K"
      by simp
  qed
  from a have len: "length (block_assignment m') = ?nb"
    by simp
  from a have nth: "block_assignment m' ! b = block_range ?N ?K b" if "b < ?nb" for b
    using that by simp
  have "\<exists>!b. b < length (block_assignment m') \<and> v \<in> set (block_assignment m' ! b)"
    if "unat v < ?N" for v
    using uniq [OF that] by (simp add: len nth cong: conj_cong)
  with b len nth show ?thesis
    by (simp add: block_range_def)
qed


theorem hash_home_blocks_witness:
  "\<exists>m'. build_block_graph_if_needed word_platform
       (AnnInSsdModel_new
          \<lparr>dimension = 1, num_vectors = 0, placement_mode = ''hash_home'', vectors_per_block = 2,
            portal_degree = 1, code_type = ''raw'', hardware_level = ''L0'', cfg_k = 2,
            max_steps = 0, entry_block_strategy = ''centroid_knn''\<rparr>
          [[1], [2], [3], [4], [5]]) = Some m' \<and>
     length (block_assignment m') = 3 \<and> block_assignment m' ! 2 = [4] \<and>
     (\<exists>!b. b < length (block_assignment m') \<and> 3 \<in> set (block_assignment m' ! b))"
proof -
  let ?cfg = "\<lparr>dimension = 1, num_vectors = 0, placement_mode = ''hash_home'',
     vectors_per_block = 2, portal_degree = 1, code_type = ''raw'', hardware_level = ''L0'',
     cfg_k = 2, max_steps = 0, entry_block_strategy = ''centroid_knn''\<rparr>"
  let ?ds = "[[1], [2], [3], [4], [5]] :: VectorData list"
  have n: "effective_n ?cfg ?ds = 5" and K: "effective_K ?cfg = 2"
    and d: "graph_dimension ?cfg ?ds = 1"
    by (simp_all add: effective_n_def effective_K_def graph_dimension_def)
  have "placement_mode ?cfg \<noteq> ''locality_aware''" "length ?ds < 2 ^ 64"
    "unat (effective_n ?cfg ?ds) + unat (effective_K ?cfg) \<le> 2 ^ 64"
    "effective_n ?cfg ?ds \<noteq> 0 \<longrightarrow> graph_dimension ?cfg ?ds \<noteq> 0"
    by (simp_all add: n K d)
  from hash_home_blocks [OF this, of word_platform]
  obtain m' where b: "build_block_graph_if_needed word_platform (AnnInSsdModel_new ?cfg ?ds) = Some m'"
    and len: "length (block_assignment m') = 3"
    and nth: "\<forall>b < length (block_assignment m'). block_assignment m' ! b =
        map of_nat [b * 2 ..< min ((b + 1) * 2) 5]"
    and uniq: "\<forall>v. unat v < 5 \<longrightarrow>
        (\<exists>!b. b < length (block_assignment m') \<and> (v :: VectorID) \<in> set (block_assignment m' ! b))"
    by (auto simp: n K)
  from nth len have "block_assignment m' ! 2 = map of_nat [4 ..< 5]"
    by simp
  then have "block_assignment m' ! 2 = [4]"
    by (simp add: upt_rec)
  moreover from uniq have "\<exists>!b. b < length (block_assignment m') \<and> 3 \<in> set (block_assignment m' ! b)"
    by simp
  ultimately show ?thesis
    using b len by blast
qed

section \<open>Properties of the block model: the micro-index accounting\<close>

lemma with_code_type_fields:
  "dataset (with_code_type c m) = dataset m"
  "block_centroids (with_code_type c m) = block_centroids m"
  "block_neighbors (with_code_type c m) = block_neighbors m"
  "block_assignment (with_code_type c m) = block_assignment m"
  "graph_dim (with_code_type c m) = graph_dim m"
  "graph_vectors_per_block (with_code_type c m) = graph_vectors_per_block m"
  "dimension (config (with_code_type c m)) = dimension (config m)"
  "cfg_k (config (with_code_type c m)) = cfg_k (config m)"
  "max_steps (config (with_code_type c m)) = max_steps (config m)"
  "placement_mode (config (with_code_type c m)) = placement_mode (config m)"
  "portal_degree (config (with_code_type c m)) = portal_degree (config m)"
  "hardware_level (config (with_code_type c m)) = hardware_level (config m)"
  "entry_block_strategy (config (with_code_type c m)) = entry_block_strategy (config m)"
  "effective_n (config (with_code_type c m)) ds = effective_n (config m) ds"
  "effective_K (config (with_code_type c m)) = effective_K (config m)"
  "graph_dimension (config (with_code_type c m)) ds = graph_dimension (config m) ds"
  "code_type (config (with_code_type c m)) = c"
  by (simp_all add: with_code_type_def effective_n_def effective_K_def graph_dimension_def)

lemma with_code_type_built:
  "(with_code_type c m)\<lparr>graph_dim := a1, graph_vectors_per_block := a2, block_assignment := a3,
       block_centroids := a4, block_neighbors := a5\<rparr> =
   with_code_type c (m\<lparr>graph_dim := a1, graph_vectors_per_block := a2, block_assignment := a3,
       block_centroids := a4, block_neighbors := a5\<rparr>)"
  by (simp add: with_code_type_def)

lemma entry_frontier_with_code_type:
  "entry_frontier P (with_code_type c m) q dm nb = entry_frontier P m q dm nb"
  unfolding entry_frontier_def with_code_type_fields ..

lemma build_with_code_type:
  "build_block_graph_if_needed P (with_code_type c m) =
     map_option (with_code_type c) (build_block_graph_if_needed P m)"
  unfolding build_block_graph_if_needed_def with_code_type_fields Let_def
    option.case_distrib [of "map_option (with_code_type c)"]
    if_distrib [of "map_option (with_code_type c)"] option.map with_code_type_built
  ..

lemma build_config:
  "build_block_graph_if_needed P m = Some m1 \<Longrightarrow> config m1 = config m"
  unfolding build_block_graph_if_needed_def Let_def
  by (auto split: option.splits if_splits)

lemma navigate_with_code_type:
  "navigate P (with_code_type c m) q = map_option (nav_with_code_type c) (navigate P m q)"
  unfolding navigate_def with_code_type_fields build_with_code_type Let_def
    case_map_option comp_def entry_frontier_with_code_type
    option.case_distrib [of "map_option (nav_with_code_type c)"]
    if_distrib [of "map_option (nav_with_code_type c)"] option.map nav_with_code_type.simps
  ..

lemma scan_step_None: "foldl (scan_step P ds asg q dm flag) None order = None"
  by (induction order) (simp_all add: scan_step_def)

lemma scan_blocks_fold:
  "foldl (scan_step P ds asg q dm flag) (Some sc0) order = Some sc \<longleftrightarrow>
     (\<forall>b \<in> set order. unat b < length asg \<and> scan_block P ds q dm (asg ! unat b) \<noteq> None) \<and>
     sc = \<lparr>sc_dist_id = sc_dist_id sc0 @
                concat (map (\<lambda>b. the (scan_block P ds q dm (asg ! unat b))) order),
           sc_distances_computed = sc_distances_computed sc0 + sum_list (map (charged flag asg) order),
           sc_internal_reads = sc_internal_reads sc0 + of_nat (length order)\<rparr>"
proof (induction order arbitrary: sc0)
  case Nil
  then show ?case by auto
next
  case (Cons b order)
  show ?case
  proof (cases "unat b < length asg \<and> scan_block P ds q dm (asg ! unat b) \<noteq> None")
    case False
    then have "scan_step P ds asg q dm flag (Some sc0) b = None"
      by (auto simp: scan_step_def Let_def)
    with False show ?thesis
      by (auto simp: scan_step_None)
  next
    case True
    then obtain xs where xs: "scan_block P ds q dm (asg ! unat b) = Some xs"
      by auto
    with True have "scan_step P ds asg q dm flag (Some sc0) b =
        Some (sc0\<lparr>sc_dist_id := sc_dist_id sc0 @ xs,
                 sc_distances_computed := sc_distances_computed sc0 + charged flag asg b,
                 sc_internal_reads := sc_internal_reads sc0 + 1\<rparr>)"
      by (simp add: scan_step_def Let_def charged_def min.commute)
    with True xs Cons.IH show ?thesis
      by (simp add: ac_simps)
  qed
qed

lemma scan_blocks_eq:
  "scan_blocks P ds asg q dm flag order =
     (if \<forall>b \<in> set order. unat b < length asg \<and> scan_block P ds q dm (asg ! unat b) \<noteq> None
      then Some \<lparr>sc_dist_id = concat (map (\<lambda>b. the (scan_block P ds q dm (asg ! unat b))) order),
                 sc_distances_computed = sum_list (map (charged flag asg) order),
                 sc_internal_reads = of_nat (length order)\<rparr>
      else None)"
proof (cases "scan_blocks P ds asg q dm flag order")
  case None
  with scan_blocks_fold [of P ds asg q dm flag
      "\<lparr>sc_dist_id = [], sc_distances_computed = 0, sc_internal_reads = 0\<rparr>" order]
  show ?thesis
    by (auto simp: scan_blocks_def)
next
  case (Some sc)
  with scan_blocks_fold [of P ds asg q dm flag
      "\<lparr>sc_dist_id = [], sc_distances_computed = 0, sc_internal_reads = 0\<rparr>" order sc]
  show ?thesis
    by (auto simp: scan_blocks_def)
qed

lemma scan_block_ids: "scan_block P ds q dm ids = Some xs \<Longrightarrow> map snd xs = ids"
proof (induction ids arbitrary: xs)
  case Nil
  then show ?case by (simp add: scan_block_def)
next
  case (Cons vid ids)
  then show ?case
    by (auto simp: scan_block_def split: option.splits)
qed

lemma scan_blocks_flag:
  "scan_blocks P ds asg q dm flag order =
     map_option (\<lambda>sc. sc\<lparr>sc_distances_computed := sum_list (map (charged flag asg) order)\<rparr>)
       (scan_blocks P ds asg q dm False order)"
  by (simp add: scan_blocks_eq [of P ds asg q dm])

lemma scan_blocks_reads:
  "scan_blocks P ds asg q dm flag order = Some sc \<Longrightarrow>
     sc_internal_reads sc = of_nat (length order) \<and>
     map snd (sc_dist_id sc) = concat (map (\<lambda>b. asg ! unat b) order)"
proof -
  assume a: "scan_blocks P ds asg q dm flag order = Some sc"
  then have ok: "\<forall>b \<in> set order. unat b < length asg \<and> scan_block P ds q dm (asg ! unat b) \<noteq> None"
    and sc: "sc = \<lparr>sc_dist_id = concat (map (\<lambda>b. the (scan_block P ds q dm (asg ! unat b))) order),
                 sc_distances_computed = sum_list (map (charged flag asg) order),
                 sc_internal_reads = of_nat (length order)\<rparr>"
    by (simp_all add: scan_blocks_eq [of P ds asg q dm] split: if_splits)
  have "map snd (the (scan_block P ds q dm (asg ! unat b))) = asg ! unat b" if "b \<in> set order" for b
    using that ok scan_block_ids [of P ds q dm "asg ! unat b"] by auto
  then have "map (\<lambda>b. map snd (the (scan_block P ds q dm (asg ! unat b)))) order
      = map (\<lambda>b. asg ! unat b) order"
    by (intro map_cong refl)
  then have "map snd (concat (map (\<lambda>b. the (scan_block P ds q dm (asg ! unat b))) order))
      = concat (map (\<lambda>b. asg ! unat b) order)"
    by (simp only: map_concat map_map comp_def)
  then show ?thesis
    by (simp add: sc)
qed

lemma search_one_with_code_type:
  "search_one P (with_code_type c m) q =
     (case navigate P m q of
        None \<Rightarrow> None
      | Some Early \<Rightarrow>
          Some (\<lparr>query_id = q_id q, found_neighbors = [], found_scores = [],
                   blocks_visited = 0, portal_steps = 0, internal_reads = 0,
                   distances_computed = 0, estimated_latency_us = 0\<rparr>, with_code_type c m)
      | Some (Visited m1 ds dm k fr) \<Rightarrow>
          (case scan_blocks P ds (block_assignment m1) (q_values q) (unat dm) False (fr_order fr) of
             None \<Rightarrow> None
           | Some sc \<Rightarrow>
               let result2 = \<lparr>query_id = q_id q, found_neighbors = [], found_scores = [],
                     blocks_visited = of_nat (length (fr_order fr)), portal_steps = fr_steps fr,
                     internal_reads = of_nat (length (fr_order fr)),
                     distances_computed = sum_list (map (charged (c = ''micro_index'')
                        (block_assignment m1)) (fr_order fr)),
                     estimated_latency_us = 0\<rparr>;
                   kk = min (unat k) (length (sc_dist_id sc))
               in if kk = 0 then Some (result2, with_code_type c m1)
                  else
                    let best = sort_first P (take kk (nth_element P kk (sc_dist_id sc)))
                    in Some (result2\<lparr>found_scores := map fst best, found_neighbors := map snd best\<rparr>,
                             with_code_type c m1)))"
proof (cases "navigate P m q")
  case None
  then show ?thesis
    by (simp add: search_one_def navigate_with_code_type)
next
  case (Some nav)
  show ?thesis
  proof (cases nav)
    case Early
    with Some show ?thesis
      by (simp add: search_one_def navigate_with_code_type)
  next
    case (Visited m1 ds dm k fr)
    show ?thesis
    proof (cases "scan_blocks P ds (block_assignment m1) (q_values q) (unat dm) False (fr_order fr)")
      case None
      with Some Visited show ?thesis
        by (simp add: search_one_def navigate_with_code_type with_code_type_fields
              scan_blocks_flag [of P ds "block_assignment m1" "q_values q" "unat dm" "c = ''micro_index''"])
    next
      case (Some sc)
      have [simp]: "(min a b = 0) = (a = 0 \<or> b = 0)" for a b :: nat
        by (auto simp: min_def)
      from scan_blocks_reads [OF Some]
      have "sc_internal_reads sc = of_nat (length (fr_order fr))" by simp
      with Some Visited \<open>navigate P m q = Some nav\<close> show ?thesis
        by (simp add: search_one_def navigate_with_code_type with_code_type_fields Let_def
              scan_blocks_flag [of P ds "block_assignment m1" "q_values q" "unat dm" "c = ''micro_index''"])
    qed
  qed
qed

lemma scan_block_pinned:
  "scan_block P ds q dm ids = Some xs \<Longrightarrow>
     (\<forall>vid \<in> set ids. unat vid < length ds \<and> l2_distance_squared P q (ds ! unat vid) dm \<noteq> None) \<and>
     xs = map (\<lambda>vid. (the (l2_distance_squared P q (ds ! unat vid) dm), vid)) ids"
proof (induction ids arbitrary: xs)
  case Nil
  then show ?case by (simp add: scan_block_def)
next
  case (Cons vid ids)
  then show ?case
    by (auto simp: scan_block_def get_vector_data_def split: option.splits if_splits)
qed

lemma scan_blocks_pinned:
  assumes "scan_blocks P ds asg q dm flag order = Some sc"
  shows "(\<forall>b \<in> set order. unat b < length asg \<and>
            (\<forall>vid \<in> set (asg ! unat b). unat vid < length ds \<and>
               l2_distance_squared P q (ds ! unat vid) dm \<noteq> None)) \<and>
         sc_dist_id sc =
           concat (map (\<lambda>b. map (\<lambda>vid. (the (l2_distance_squared P q (ds ! unat vid) dm), vid))
                               (asg ! unat b)) order)"
proof -
  from assms have ok: "\<forall>b \<in> set order. unat b < length asg \<and> scan_block P ds q dm (asg ! unat b) \<noteq> None"
    and sc: "sc_dist_id sc = concat (map (\<lambda>b. the (scan_block P ds q dm (asg ! unat b))) order)"
    by (auto simp: scan_blocks_eq [of P ds asg q dm] split: if_splits)
  have pin: "(\<forall>vid \<in> set (asg ! unat b). unat vid < length ds \<and>
               l2_distance_squared P q (ds ! unat vid) dm \<noteq> None) \<and>
      the (scan_block P ds q dm (asg ! unat b)) =
        map (\<lambda>vid. (the (l2_distance_squared P q (ds ! unat vid) dm), vid)) (asg ! unat b)"
    if "b \<in> set order" for b
  proof -
    from that ok obtain xs where "scan_block P ds q dm (asg ! unat b) = Some xs" by auto
    from scan_block_pinned [OF this] this show ?thesis by simp
  qed
  then have "map (\<lambda>b. the (scan_block P ds q dm (asg ! unat b))) order =
      map (\<lambda>b. map (\<lambda>vid. (the (l2_distance_squared P q (ds ! unat vid) dm), vid)) (asg ! unat b)) order"
    by (intro map_cong refl) simp
  with sc ok pin show ?thesis by auto
qed

lemma search_one_pinned:
  assumes nav: "navigate P m q = Some (Visited m1 ds dm k fr)"
    and res: "search_one P (with_code_type c m) q = Some (r, m')"
  shows "(\<forall>b \<in> set (fr_order fr). unat b < length (block_assignment m1) \<and>
            (\<forall>vid \<in> set (block_assignment m1 ! unat b). unat vid < length ds \<and>
               l2_distance_squared P (q_values q) (ds ! unat vid) (unat dm) \<noteq> None)) \<and>
         (let dist_id = concat (map (\<lambda>b. map (\<lambda>vid.
                 (the (l2_distance_squared P (q_values q) (ds ! unat vid) (unat dm)), vid))
                 (block_assignment m1 ! unat b)) (fr_order fr));
              kk = min (unat k) (length dist_id);
              best = sort_first P (take kk (nth_element P kk dist_id))
          in found_scores r = (if kk = 0 then [] else map fst best) \<and>
             found_neighbors r = (if kk = 0 then [] else map snd best))"
proof -
  from res nav obtain sc where
    sc: "scan_blocks P ds (block_assignment m1) (q_values q) (unat dm) False (fr_order fr) = Some sc"
    by (auto simp: search_one_with_code_type split: option.splits)
  note pin = scan_blocks_pinned [OF sc]
  define kk where "kk = min (unat k) (length (sc_dist_id sc))"
  from res nav sc have found:
    "found_scores r = (if kk = 0 then []
       else map fst (sort_first P (take kk (nth_element P kk (sc_dist_id sc))))) \<and>
     found_neighbors r = (if kk = 0 then []
       else map snd (sort_first P (take kk (nth_element P kk (sc_dist_id sc)))))"
    unfolding search_one_with_code_type Let_def kk_def
    by (cases "min (unat k) (length (sc_dist_id sc)) = 0") (simp_all del: min_less_iff_conj, auto)
  from pin have eq: "concat (map (\<lambda>b. map (\<lambda>vid.
                 (the (l2_distance_squared P (q_values q) (ds ! unat vid) (unat dm)), vid))
                 (block_assignment m1 ! unat b)) (fr_order fr)) = sc_dist_id sc"
    by simp
  show ?thesis
    unfolding Let_def eq
    by (intro conjI pin [THEN conjunct1] found [unfolded kk_def, THEN conjunct1]
        found [unfolded kk_def, THEN conjunct2])
qed

text \<open>
  C8. Take any model and query and run \<open>search_one\<close> with \<open>code_type\<close> set to
  \<open>micro_index\<close> and to \<open>raw\<close>. One run fails exactly when the other does. When both
  return, they return the same neighbours and scores, visit the same blocks and build the
  same assignment; \<open>distances_computed\<close> is the sum over the visited blocks of
  \<open>min(16, size of the block's assignment)\<close> under \<open>micro_index\<close> and of the size of the
  block's assignment under \<open>raw\<close>. In either mode the scan computes one distance for
  every vector of every visited block: the list it builds pairs every id of every visited
  block, in order, with \<open>l2_distance_squared\<close> of the query and that id's vector, each of
  which is defined; and the neighbours and scores that \<open>search_one\<close> returns in either
  mode are the first \<open>min(k, length)\<close> entries of that list, as \<open>nth_element\<close> and
  \<open>sort\<close> leave them.
\<close>

theorem code_type_changes_counter_only:
  "(search_one P (with_code_type ''micro_index'' m) q = None \<longleftrightarrow>
      search_one P (with_code_type ''raw'' m) q = None) \<and>
   (search_one P (with_code_type ''micro_index'' m) q = Some (r_mi, m_mi) \<and>
    search_one P (with_code_type ''raw'' m) q = Some (r_raw, m_raw) \<longrightarrow>
      found_neighbors r_raw = found_neighbors r_mi \<and> found_scores r_raw = found_scores r_mi \<and>
      blocks_visited r_raw = blocks_visited r_mi \<and> portal_steps r_raw = portal_steps r_mi \<and>
      internal_reads r_raw = internal_reads r_mi \<and>
      block_assignment m_raw = built_assignment P m q \<and>
      block_assignment m_mi = built_assignment P m q \<and>
      blocks_visited r_mi = of_nat (length (visited_blocks P m q)) \<and>
      distances_computed r_mi =
        sum_list (map (\<lambda>b. min 16 (of_nat (length (built_assignment P m q ! unat b))))
                   (visited_blocks P m q)) \<and>
      distances_computed r_raw =
        sum_list (map (\<lambda>b. of_nat (length (built_assignment P m q ! unat b)))
                   (visited_blocks P m q))) \<and>
   (scan_blocks P ds asg v dm flag order = Some sc \<longrightarrow>
      map snd (sc_dist_id sc) = concat (map (\<lambda>b. asg ! unat b) order)) \<and>
   (scan_blocks P ds asg v dm flag order = Some sc \<longrightarrow>
      (\<forall>b \<in> set order. unat b < length asg \<and>
         (\<forall>vid \<in> set (asg ! unat b). unat vid < length ds \<and>
            l2_distance_squared P v (ds ! unat vid) dm \<noteq> None)) \<and>
      sc_dist_id sc =
        concat (map (\<lambda>b. map (\<lambda>vid. (the (l2_distance_squared P v (ds ! unat vid) dm), vid))
                            (asg ! unat b)) order)) \<and>
   (navigate P m q = Some (Visited m1 ds1 dm1 k fr) \<and>
    (search_one P (with_code_type ''micro_index'' m) q = Some (r, m') \<or>
     search_one P (with_code_type ''raw'' m) q = Some (r, m')) \<longrightarrow>
      fr_order fr = visited_blocks P m q \<and> block_assignment m1 = built_assignment P m q \<and>
      (\<forall>b \<in> set (fr_order fr). unat b < length (block_assignment m1) \<and>
         (\<forall>vid \<in> set (block_assignment m1 ! unat b). unat vid < length ds1 \<and>
            l2_distance_squared P (q_values q) (ds1 ! unat vid) (unat dm1) \<noteq> None)) \<and>
      (let dist_id = concat (map (\<lambda>b. map (\<lambda>vid.
              (the (l2_distance_squared P (q_values q) (ds1 ! unat vid) (unat dm1)), vid))
              (block_assignment m1 ! unat b)) (fr_order fr));
           kk = min (unat k) (length dist_id);
           best = sort_first P (take kk (nth_element P kk dist_id))
       in found_scores r = (if kk = 0 then [] else map fst best) \<and>
          found_neighbors r = (if kk = 0 then [] else map snd best)))"
proof -
  have [simp]: "block_assignment (with_code_type c m') = block_assignment m'" for c m'
    by (simp add: with_code_type_def)
  have [simp]: "charged True a = (\<lambda>b. min 16 (of_nat (length (a ! unat b))))"
    "charged False a = (\<lambda>b. of_nat (length (a ! unat b)))" for a
    by (simp_all add: fun_eq_iff charged_def)
  have *: "(search_one P (with_code_type ''micro_index'' m) q = None \<longleftrightarrow>
      search_one P (with_code_type ''raw'' m) q = None)"
    by (simp add: search_one_with_code_type Let_def split: option.splits navigation.splits)
  have **: "found_neighbors r_raw = found_neighbors r_mi \<and> found_scores r_raw = found_scores r_mi \<and>
      blocks_visited r_raw = blocks_visited r_mi \<and> portal_steps r_raw = portal_steps r_mi \<and>
      internal_reads r_raw = internal_reads r_mi \<and>
      block_assignment m_raw = built_assignment P m q \<and>
      block_assignment m_mi = built_assignment P m q \<and>
      blocks_visited r_mi = of_nat (length (visited_blocks P m q)) \<and>
      distances_computed r_mi =
        sum_list (map (\<lambda>b. min 16 (of_nat (length (built_assignment P m q ! unat b))))
                   (visited_blocks P m q)) \<and>
      distances_computed r_raw =
        sum_list (map (\<lambda>b. of_nat (length (built_assignment P m q ! unat b)))
                   (visited_blocks P m q))"
    if "search_one P (with_code_type ''micro_index'' m) q = Some (r_mi, m_mi)"
      and "search_one P (with_code_type ''raw'' m) q = Some (r_raw, m_raw)"
    using that
    by (auto simp: search_one_with_code_type Let_def visited_blocks_def built_assignment_def
          split: option.splits navigation.splits if_splits)
  have ***: "fr_order fr = visited_blocks P m q \<and> block_assignment m1 = built_assignment P m q"
    if "navigate P m q = Some (Visited m1 ds1 dm1 k fr)"
    using that by (simp add: visited_blocks_def built_assignment_def)
  note pins = search_one_pinned [of P m q m1 ds1 dm1 k fr "''micro_index''" r m']
    search_one_pinned [of P m q m1 ds1 dm1 k fr "''raw''" r m']
  from * ** *** pins scan_blocks_reads [of P ds asg v dm flag order sc]
    scan_blocks_pinned [of P ds asg v dm flag order sc]
  show ?thesis
    by blast
qed

theorem code_type_changes_counter_only_witness:
  "distances_computed (fst (the (search_one word_platform
       (with_code_type ''micro_index'' example_model) example_query))) = 18 \<and>
   distances_computed (fst (the (search_one word_platform
       (with_code_type ''raw'' example_model) example_query))) = 22 \<and>
   found_neighbors (fst (the (search_one word_platform
       (with_code_type ''raw'' example_model) example_query))) =
   found_neighbors (fst (the (search_one word_platform
       (with_code_type ''micro_index'' example_model) example_query))) \<and>
   found_neighbors (fst (the (search_one word_platform
       (with_code_type ''micro_index'' example_model) example_query))) = [7, 6] \<and>
   found_scores (fst (the (search_one word_platform
       (with_code_type ''micro_index'' example_model) example_query))) = [0, 1]"
proof -
  have "search_one word_platform (with_code_type ''micro_index'' example_model) example_query \<noteq> None"
    by code_simp
  then obtain r_mi m_mi where mi: "search_one word_platform
      (with_code_type ''micro_index'' example_model) example_query = Some (r_mi, m_mi)"
    by auto
  have "search_one word_platform (with_code_type ''raw'' example_model) example_query \<noteq> None"
    by code_simp
  then obtain r_raw m_raw where raw: "search_one word_platform
      (with_code_type ''raw'' example_model) example_query = Some (r_raw, m_raw)"
    by auto
  have vb: "visited_blocks word_platform example_model example_query = [0, 1]"
    by code_simp
  have ba: "built_assignment word_platform example_model example_query =
      [[0, 1, 2, 3, 4, 5, 6, 7, 8, 9, 10, 11, 12, 13, 14, 15, 16, 17, 18, 19], [20, 21]]"
    by code_simp
  have "(case navigate word_platform example_model example_query of
           Some (Visited m1 ds dm k fr) \<Rightarrow> ds = map (\<lambda>i. [of_nat i]) [0..<22] \<and> dm = 1 \<and> k = 2
         | _ \<Rightarrow> False)"
    by code_simp
  then obtain m1 fr where nav: "navigate word_platform example_model example_query =
      Some (Visited m1 (map (\<lambda>i. [of_nat i]) [0..<22]) 1 2 fr)"
    by (auto split: option.splits navigation.splits)
  have best: "(let dist_id = concat (map (\<lambda>b. map (\<lambda>vid.
              (the (l2_distance_squared word_platform (q_values example_query)
                      (map (\<lambda>i. [of_nat i]) [0..<22] ! unat vid) (unat (1 :: size_t))), vid))
              ([[0, 1, 2, 3, 4, 5, 6, 7, 8, 9, 10, 11, 12, 13, 14, 15, 16, 17, 18, 19], [20, 21]]
                 ! unat b)) [0, 1 :: size_t]);
           kk = min (unat (2 :: size_t)) (length dist_id);
           best = sort_first word_platform (take kk (nth_element word_platform kk dist_id))
       in (kk, map fst best, map snd best)) = (2, [0, 1], [7, 6])"
    by code_simp
  note inst = code_type_changes_counter_only [where P = word_platform and m = example_model
      and q = example_query and r_mi = r_mi and m_mi = m_mi and r_raw = r_raw and m_raw = m_raw
      and ?m1.0 = m1 and ?ds1.0 = "map (\<lambda>i. [of_nat i]) [0..<22]" and ?dm1.0 = 1 and k = 2
      and fr = fr and r = r_mi and m' = m_mi]
  from inst [THEN conjunct2, THEN conjunct1, THEN mp, OF conjI [OF mi raw]]
  have main: "distances_computed r_mi = 18 \<and> distances_computed r_raw = 22 \<and>
      found_neighbors r_raw = found_neighbors r_mi"
    by (simp add: vb ba)
  note c5 = inst [THEN conjunct2, THEN conjunct2, THEN conjunct2, THEN conjunct2, THEN mp,
      OF conjI [OF nav disjI1 [OF mi]]]
  from c5 have fr: "fr_order fr = [0, 1]"
    and asg: "block_assignment m1 =
      [[0, 1, 2, 3, 4, 5, 6, 7, 8, 9, 10, 11, 12, 13, 14, 15, 16, 17, 18, 19], [20, 21]]"
    by (simp_all add: vb ba)
  note pinned = c5 [THEN conjunct2, THEN conjunct2, THEN conjunct2]
  from pinned best have "found_scores r_mi = [0, 1] \<and> found_neighbors r_mi = [7, 6]"
    unfolding fr asg Let_def by simp
  with main mi raw show ?thesis
    by simp
qed


section \<open>Properties of the HNSW index: the degree cap\<close>

text \<open>
  Claim C3, for \<open>build_parallel\<close>. In scenario F the four-threaded build can end with a
  node above its cap: under \<open>scenario_schedule\<close> node 9 links itself to node 8 at layer 0
  after node 8 has selected its eight neighbours and before it has appended them to its
  own list, which \<open>insert_node_parallel\<close> does without looking at the size of the list.
  Node 8 is left with nine neighbours at layer 0, where \<open>2 * M = 8\<close>.
\<close>

theorem parallel_build_exceeds_degree_cap:
  "map_option (degree 8 0)
     (build_parallel word_platform scenario_levels (HNSW_new 2 4 50 L2) line_data 4
        scenario_schedule) = Some 9"
  by code_simp

end
